theory Spec2Isabelle
  imports Main "HOL-Library.Char_ord" "HOL-Library.List_Lexorder" "HOL-Library.AList"
begin

section \<open>Data model\<close>

text \<open>
  A dataset record is a JavaScript object whose property values are strings, numbers or
  \<open>null\<close> (what the MySQL driver and JSON deliver). It is modelled as an association
  list, in property order; a property that is absent reads as \<open>undefined\<close>, which is
  \<open>None\<close> of \<open>scalar option\<close>. Numbers are restricted to integers: the text of a
  fractional number (\<open>String(1.5)\<close>) is not modelled. Strings are lists of 8-bit
  characters.
\<close>

datatype scalar = SStr string | SNum int | SNull

type_synonym row = "(string \<times> scalar) list"

text \<open>\<open>r?.[k]\<close>: the property, \<open>None\<close> for \<open>undefined\<close>.\<close>

definition getProp :: "row \<Rightarrow> string \<Rightarrow> scalar option" where
  "getProp r k = map_of r k"

text \<open>The left operand of \<open>??\<close>: kept unless it is \<open>undefined\<close> or \<open>null\<close>.\<close>

fun present :: "scalar option \<Rightarrow> scalar option" where
  "present None = None"
| "present (Some SNull) = None"
| "present (Some v) = Some v"

text \<open>\<open>a ?? b\<close>\<close>

definition nullish_or :: "scalar option \<Rightarrow> scalar \<Rightarrow> scalar" where
  "nullish_or a b = (case present a of Some v \<Rightarrow> v | None \<Rightarrow> b)"

subsection \<open>JavaScript string conversions\<close>

definition digit_char :: "nat \<Rightarrow> char" where
  "digit_char d = ''0123456789'' ! d"

fun show_nat :: "nat \<Rightarrow> string" where
  "show_nat n = (if n < 10 then [digit_char n] else show_nat (n div 10) @ [digit_char (n mod 10)])"

declare show_nat.simps [simp del]

definition show_int :: "int \<Rightarrow> string" where
  "show_int i = (if i < 0 then CHR ''-'' # show_nat (nat (- i)) else show_nat (nat i))"

text \<open>\<open>String(v)\<close>\<close>

fun String_js :: "scalar \<Rightarrow> string" where
  "String_js (SStr s) = s"
| "String_js (SNum n) = show_int n"
| "String_js SNull = ''null''"

text \<open>Truthiness, as \<open>!v\<close>, \<open>a || b\<close> and \<open>a && b\<close> test it.\<close>

fun truthy :: "scalar option \<Rightarrow> bool" where
  "truthy None = False"
| "truthy (Some SNull) = False"
| "truthy (Some (SStr s)) = (s \<noteq> [])"
| "truthy (Some (SNum n)) = (n \<noteq> 0)"

text \<open>\<open>`${a || d}`\<close> inside a template literal.\<close>

definition or_text :: "scalar option \<Rightarrow> string \<Rightarrow> string" where
  "or_text a d = (case a of Some v \<Rightarrow> (if truthy a then String_js v else d) | None \<Rightarrow> d)"

text \<open>\<open>toLowerCase\<close>, on the ASCII letters.\<close>

definition lower_char :: "char \<Rightarrow> char" where
  "lower_char c = (if CHR ''A'' \<le> c \<and> c \<le> CHR ''Z'' then char_of (of_char c + (32::nat)) else c)"

definition toLowerCase :: "string \<Rightarrow> string" where
  "toLowerCase s = map lower_char s"

text \<open>\<open>hay.includes(needle)\<close>: the needle occurs at some position of the hay.\<close>

fun starts_with :: "string \<Rightarrow> string \<Rightarrow> bool" where
  "starts_with hay [] = True"
| "starts_with [] (n # ns) = False"
| "starts_with (h # hs) (n # ns) = (h = n \<and> starts_with hs ns)"

fun includes_js :: "string \<Rightarrow> string \<Rightarrow> bool" where
  "includes_js [] needle = (needle = [])"
| "includes_js (h # hs) needle = (starts_with (h # hs) needle \<or> includes_js hs needle)"

section \<open>Local cache store (idb.jsx)\<close>

text \<open>
  \<open>makeKey(r, idx)\<close>: the \<open>id\<close> property, else \<open>Folio_Dpid\<close>, else a text built
  from three name properties and the index of the row in its batch.
\<close>

definition makeKey :: "row \<Rightarrow> nat \<Rightarrow> scalar" where
  "makeKey r idx =
     (case present (getProp r ''id'') of
        Some v \<Rightarrow> v
      | None \<Rightarrow>
          (case present (getProp r ''Folio_Dpid'') of
             Some v \<Rightarrow> v
           | None \<Rightarrow>
               SStr (or_text (getProp r ''Company_Name'') ''row'' @ ''-''
                     @ or_text (getProp r ''Investor_First_Name'') '''' @ ''-''
                     @ or_text (getProp r ''Investor_Last_Name'') '''' @ ''-''
                     @ show_nat idx)))"

text \<open>
  The object store \<open>rows\<close> has the key path \<open>rowKey\<close>: one record per key, and a
  cursor visits the records in ascending key order. IndexedDB orders number keys before
  string keys, numbers by value and strings by their code units. The store is the list
  of its (key, record) pairs in that order. \<open>null\<close> is not a valid key; \<open>makeKey\<close>
  never returns it, and the order puts it first only to be total.
\<close>

type_synonym store = "(scalar \<times> row) list"

fun key_lt :: "scalar \<Rightarrow> scalar \<Rightarrow> bool" where
  "key_lt SNull SNull = False"
| "key_lt SNull _ = True"
| "key_lt (SNum a) SNull = False"
| "key_lt (SNum a) (SNum b) = (a < b)"
| "key_lt (SNum a) (SStr b) = True"
| "key_lt (SStr a) (SStr b) = (a < b)"
| "key_lt (SStr a) _ = False"

text \<open>\<open>tx.store.put(r)\<close> with \<open>r.rowKey = k\<close>: replaces the record stored under \<open>k\<close>, or adds one.\<close>

fun put :: "scalar \<Rightarrow> row \<Rightarrow> store \<Rightarrow> store" where
  "put k v [] = [(k, v)]"
| "put k v ((k', v') # s) =
     (if k = k' then (k, v) # s
      else if key_lt k k' then (k, v) # (k', v') # s
      else (k', v') # put k v s)"

text \<open>What a store always is: strictly ascending in its keys.\<close>

definition store_ok :: "store \<Rightarrow> bool" where
  "store_ok s = sorted_wrt key_lt (map fst s)"

text \<open>\<open>clearAll()\<close>\<close>

definition clearAll :: "store \<Rightarrow> store" where
  "clearAll s = []"

text \<open>
  \<open>upsertRows(rows)\<close>: the loop over \<open>i\<close>, each record stored as
  \<open>{ ...rows[i], rowKey: makeKey(rows[i], i) }\<close>. An empty batch returns at once.
\<close>

fun upsertLoop :: "nat \<Rightarrow> row list \<Rightarrow> store \<Rightarrow> store" where
  "upsertLoop i [] s = s"
| "upsertLoop i (r # rs) s =
     upsertLoop (Suc i) rs (put (makeKey r i) (AList.update ''rowKey'' (makeKey r i) r) s)"

definition upsertRows :: "row list \<Rightarrow> store \<Rightarrow> store" where
  "upsertRows batch s = (if batch = [] then s else upsertLoop 0 batch s)"

text \<open>
  \<open>rowMatches(r, filters)\<close> over \<open>Object.entries(filters)\<close>. The filter values are the
  texts of the filter inputs, so \<open>!v\<close> is \<open>v = ''\<close> and \<open>String(v)\<close> is \<open>v\<close>.
\<close>

type_synonym filters = "(string \<times> string) list"

fun rowMatches :: "row \<Rightarrow> filters \<Rightarrow> bool" where
  "rowMatches r [] = True"
| "rowMatches r ((k, v) # fs) =
     (if v = [] then rowMatches r fs
      else if \<not> includes_js (toLowerCase (String_js (nullish_or (getProp r k) (SStr ''''))))
                             (toLowerCase v)
           then False
           else rowMatches r fs)"

text \<open>The cursor loop of \<open>getCountFromIDB\<close>.\<close>

definition getCountFromIDB :: "store \<Rightarrow> filters \<Rightarrow> nat" where
  "getCountFromIDB s fs =
     fold (\<lambda>r count. if rowMatches r fs then count + 1 else count) (map snd s) 0"

text \<open>
  The comparator of \<open>getPageFromIDB\<close>. \<open>localeCompare\<close> depends on the locale of the
  browser and is a parameter \<open>lc\<close>. Any direction other than \<open>asc\<close> sorts descending.
\<close>

definition compareRows ::
  "(string \<Rightarrow> string \<Rightarrow> int) \<Rightarrow> string \<Rightarrow> string \<Rightarrow> row \<Rightarrow> row \<Rightarrow> int" where
  "compareRows lc col dir a b =
     (let va = nullish_or (getProp a col) (SStr '''');
          vb = nullish_or (getProp b col) (SStr '''')
      in case (va, vb) of
           (SNum x, SNum y) \<Rightarrow> (if dir = ''asc'' then x - y else y - x)
         | _ \<Rightarrow> (if dir = ''asc'' then lc (String_js va) (String_js vb)
                 else lc (String_js vb) (String_js va)))"

text \<open>
  \<open>Array.prototype.sort(cmp)\<close> is a stable sort; the engine's algorithm is not part of
  the source. The model is the stable insertion sort: an element goes before the first
  one it does not compare greater than.
\<close>

fun sort_insert :: "('a \<Rightarrow> 'a \<Rightarrow> int) \<Rightarrow> 'a \<Rightarrow> 'a list \<Rightarrow> 'a list" where
  "sort_insert cmp x [] = [x]"
| "sort_insert cmp x (y # ys) = (if cmp x y \<le> 0 then x # y # ys else y # sort_insert cmp x ys)"

fun sort_js :: "('a \<Rightarrow> 'a \<Rightarrow> int) \<Rightarrow> 'a list \<Rightarrow> 'a list" where
  "sort_js cmp [] = []"
| "sort_js cmp (x # xs) = sort_insert cmp x (sort_js cmp xs)"

text \<open>\<open>xs.slice(start, fin)\<close>, with negative indices counted from the end.\<close>

definition slice_js :: "'a list \<Rightarrow> int \<Rightarrow> int \<Rightarrow> 'a list" where
  "slice_js xs start fin =
     (let n = int (length xs);
          k = (if start < 0 then max (n + start) 0 else min start n);
          f = (if fin < 0 then max (n + fin) 0 else min fin n)
      in take (nat (f - k)) (drop (nat k) xs))"

record page_query =
  page :: int
  pageSize :: int
  sortBy :: string
  sortDir :: string
  filters :: filters

record page_result =
  rows :: "row list"
  totalCount :: nat

definition getPageFromIDB ::
  "(string \<Rightarrow> string \<Rightarrow> int) \<Rightarrow> store \<Rightarrow> page_query \<Rightarrow> page_result" where
  "getPageFromIDB lc s q =
     (let all = fold (\<lambda>r acc. if rowMatches r (filters q) then acc @ [r] else acc) (map snd s) [];
          sorted = sort_js (compareRows lc (sortBy q) (sortDir q)) all;
          start = (page q - 1) * pageSize q;
          slice = slice_js sorted start (start + pageSize q)
      in \<lparr> rows = slice, totalCount = length all \<rparr>)"

section \<open>Backend data endpoints (Backend/index.js)\<close>

text \<open>
  What a failed call throws at its caller: \<open>e.response.data.error\<close> (set when the
  server answered with an error body) and \<open>e.message\<close>.
\<close>

datatype js_error = JsError (resp_error: "string option") (message: "string option")

text \<open>\<open>req.query\<close>: the query parameters of the request, each a text.\<close>

type_synonym query = "string \<Rightarrow> string option"

definition COLS :: "string list" where
  "COLS = [''Investor_First_Name'', ''Investor_Middle_Name'', ''Investor_Last_Name'',
           ''Father_or_Husband_First Name'', ''Father_or_Husband_Middle_Name'',
           ''Father_or_Husband_Last_Name'', ''Address'', ''Folio_Dpid'', ''Company_Name'',
           ''No_of_Shares'', ''Valuation'', ''Case'']"

text \<open>White space, as \<open>trim\<close> and \<open>parseInt\<close> skip it: the ASCII part.\<close>

definition is_ws :: "char \<Rightarrow> bool" where
  "is_ws c = (c \<in> set [CHR '' '', CHR 0x09, CHR 0x0A, CHR 0x0B, CHR 0x0C, CHR 0x0D])"

definition is_digit :: "char \<Rightarrow> bool" where
  "is_digit c = (CHR ''0'' \<le> c \<and> c \<le> CHR ''9'')"

definition digit_val :: "char \<Rightarrow> nat" where
  "digit_val c = of_char c - 48"

text \<open>\<open>s.trim()\<close>\<close>

definition trim_js :: "string \<Rightarrow> string" where
  "trim_js s = rev (dropWhile is_ws (rev (dropWhile is_ws s)))"

text \<open>
  \<open>parseInt(s, 10)\<close>: leading white space, an optional sign, then the longest run of
  decimal digits; \<open>NaN\<close>, here \<open>None\<close>, when there is no digit. The result is an
  unbounded integer: the rounding of values beyond \<open>2^53\<close> is not modelled.
\<close>

definition parseInt :: "string \<Rightarrow> int option" where
  "parseInt s =
     (let t = dropWhile is_ws s;
          neg = (t \<noteq> [] \<and> hd t = CHR ''-'');
          u = (if t \<noteq> [] \<and> (hd t = CHR ''-'' \<or> hd t = CHR ''+'') then tl t else t);
          ds = takeWhile is_digit u
      in if ds = [] then None
         else Some ((if neg then - 1 else 1) * int (foldl (\<lambda>a c. a * 10 + digit_val c) 0 ds)))"

text \<open>\<open>Math.max(x, n)\<close> and \<open>Math.min(x, n)\<close>: \<open>NaN\<close> when \<open>x\<close> is.\<close>

definition Math_max :: "int option \<Rightarrow> int \<Rightarrow> int option" where
  "Math_max x n = map_option (\<lambda>v. max v n) x"

definition Math_min :: "int option \<Rightarrow> int \<Rightarrow> int option" where
  "Math_min x n = map_option (\<lambda>v. min v n) x"

text \<open>\<open>buildWhere(query)\<close>: one \<open>LIKE\<close> clause and one bound value per column of \<open>COLS\<close>
  whose parameter is non-empty and not blank.\<close>

definition buildWhere :: "query \<Rightarrow> string list \<times> string list" where
  "buildWhere q =
     fold (\<lambda>key (wh, vals).
             case q key of
               Some val \<Rightarrow>
                 if val \<noteq> [] \<and> trim_js val \<noteq> []
                 then (wh @ [[CHR 0x60] @ key @ [CHR 0x60] @ '' LIKE ?''], vals @ [''%'' @ val @ ''%''])
                 else (wh, vals)
             | None \<Rightarrow> (wh, vals))
          COLS ([], [])"

text \<open>The values the handler of \<open>GET /comp\<close> computes before it runs its query.\<close>

record comp_plan =
  q_pageSize :: "int option"
  q_page :: "int option"
  q_offset :: "int option"
  q_sortBy :: string
  q_sortDir :: string
  q_where :: "string list"
  q_values :: "string list"

definition comp_plan :: "query \<Rightarrow> comp_plan" where
  "comp_plan q =
     (let pageSize' = Math_min (Math_max (parseInt (case q ''pageSize'' of Some v \<Rightarrow> v | None \<Rightarrow> ''20'')) 1) 10000;
          page' = Math_max (parseInt (case q ''page'' of Some v \<Rightarrow> v | None \<Rightarrow> ''1'')) 1;
          offset' = (case (page', pageSize') of (Some p, Some ps) \<Rightarrow> Some ((p - 1) * ps) | _ \<Rightarrow> None);
          sortBy' = (case q ''sortBy'' of
                       Some c \<Rightarrow> if c \<in> set COLS then c else ''Company_Name''
                     | None \<Rightarrow> ''Company_Name'');
          sortDir' = (case q ''sortDir'' of
                        Some d \<Rightarrow> if toLowerCase d = ''desc'' then ''DESC'' else ''ASC''
                      | None \<Rightarrow> ''ASC'');
          (wh, vals) = buildWhere q
      in \<lparr> q_pageSize = pageSize', q_page = page', q_offset = offset', q_sortBy = sortBy',
           q_sortDir = sortDir', q_where = wh, q_values = vals \<rparr>)"

text \<open>\<open>xs.join(sep)\<close>\<close>

fun join_js :: "string \<Rightarrow> string list \<Rightarrow> string" where
  "join_js sep [] = []"
| "join_js sep [x] = x"
| "join_js sep (x # y # ys) = x @ sep @ join_js sep (y # ys)"

text \<open>The text of the query; \<open>tn\<close> is \<open>TABLE_NAME\<close>, read from the environment.\<close>

definition comp_sql :: "string \<Rightarrow> comp_plan \<Rightarrow> string" where
  "comp_sql tn pl =
     [CHR 0x0A] @ ''      SELECT *'' @ [CHR 0x0A] @ ''      FROM '' @ tn @ [CHR 0x0A] @ ''      ''
     @ (if q_where pl \<noteq> [] then ''WHERE '' @ join_js '' AND '' (q_where pl) else [])
     @ [CHR 0x0A] @ ''      ORDER BY '' @ [CHR 0x60] @ q_sortBy pl @ [CHR 0x60] @ '' '' @ q_sortDir pl
     @ [CHR 0x0A] @ ''      LIMIT ? OFFSET ?'' @ [CHR 0x0A] @ ''    ''"

text \<open>
  The database is outside the repository. Its part is a parameter: \<open>holds clause value r\<close>
  says whether record \<open>r\<close> satisfies one clause of the \<open>WHERE\<close> with its bound value
  (the meaning of \<open>LIKE\<close> under the collation of the table), and \<open>order_cmp col dir\<close>
  compares two records for \<open>ORDER BY col dir\<close>. The clauses are joined by \<open>AND\<close>,
  \<open>LIMIT n OFFSET m\<close> keeps at most \<open>n\<close> records after the first \<open>m\<close>, and a
  query whose \<open>LIMIT\<close> or \<open>OFFSET\<close> is \<open>NaN\<close> or negative is rejected.
  The order among records that compare equal is the table's: the model fixes what the
  database leaves open.
\<close>

record engine =
  holds :: "string \<Rightarrow> string \<Rightarrow> row \<Rightarrow> bool"
  order_cmp :: "string \<Rightarrow> string \<Rightarrow> row \<Rightarrow> row \<Rightarrow> int"

definition where_holds :: "engine \<Rightarrow> string list \<times> string list \<Rightarrow> row \<Rightarrow> bool" where
  "where_holds eng wv r = list_all (\<lambda>(clause, val). holds eng clause val r) (zip (fst wv) (snd wv))"

definition run_select :: "engine \<Rightarrow> row list \<Rightarrow> comp_plan \<Rightarrow> js_error + row list" where
  "run_select eng table pl =
     (case (q_pageSize pl, q_offset pl) of
        (Some n, Some m) \<Rightarrow>
          if n < 0 \<or> m < 0 then Inl (JsError None (Some ''ER_PARSE_ERROR''))
          else Inr (take (nat n) (drop (nat m)
                 (sort_js (order_cmp eng (q_sortBy pl) (q_sortDir pl))
                    (filter (where_holds eng (q_where pl, q_values pl)) table))))
      | _ \<Rightarrow> Inl (JsError None (Some ''ER_PARSE_ERROR'')))"

text \<open>
  \<open>GET /comp\<close> as its caller sees it: the records, or the failure that the status 500
  with the body \<open>{ error: "Failed to fetch comp" }\<close> becomes in the HTTP client.
\<close>

definition comp_get :: "engine \<Rightarrow> row list \<Rightarrow> query \<Rightarrow> js_error + row list" where
  "comp_get eng table q =
     (case run_select eng table (comp_plan q) of
        Inr rs \<Rightarrow> Inr rs
      | Inl e \<Rightarrow> Inl (JsError (Some ''Failed to fetch comp'')
                              (Some ''Request failed with status code 500'')))"

text \<open>\<open>GET /comp/count\<close>: \<open>SELECT COUNT(*)\<close> under the same \<open>WHERE\<close>.\<close>

definition comp_count :: "engine \<Rightarrow> row list \<Rightarrow> query \<Rightarrow> js_error + nat" where
  "comp_count eng table q = Inr (length (filter (where_holds eng (buildWhere q)) table))"

section \<open>Frontend (App.jsx)\<close>

definition BASE_COLS :: "string list" where
  "BASE_COLS = [''Investor_First_Name'', ''Investor_Middle_Name'', ''Investor_Last_Name'',
                ''Father_or_Husband_First Name'', ''Father_or_Husband_Middle_Name'',
                ''Father_or_Husband_Last_Name'', ''Address'', ''Folio_Dpid'', ''Company_Name'',
                ''No_of_Shares'', ''Valuation'', ''Case'']"

definition FILTER_COLS :: "string list" where
  "FILTER_COLS = filter (\<lambda>c. c \<noteq> ''No_of_Shares'' \<and> c \<noteq> ''Valuation'') BASE_COLS"

definition NUMERIC_COLS :: "string list" where
  "NUMERIC_COLS = [''No_of_Shares'', ''Valuation'']"

text \<open>\<open>valuationOrder && NUMERIC_COLS.has(sortBy) ? valuationOrder : sortDir\<close>\<close>

definition effSortDir :: "string \<Rightarrow> string \<Rightarrow> string \<Rightarrow> string" where
  "effSortDir valuationOrder col dir =
     (if valuationOrder \<noteq> [] \<and> col \<in> set NUMERIC_COLS then valuationOrder else dir)"

text \<open>The descriptor with the direction in effect.\<close>

definition with_effSortDir :: "string \<Rightarrow> page_query \<Rightarrow> page_query" where
  "with_effSortDir valuationOrder d = d\<lparr> sortDir := effSortDir valuationOrder (sortBy d) (sortDir d) \<rparr>"

text \<open>
  The parameter objects of the calls, as the server reads them: numbers arrive as their
  decimal text, and a later property of the object literal replaces an earlier one of
  the same name.
  \<open>{ page, pageSize, sortBy, sortDir, ...filters }\<close> and \<open>{ ...filters, sortBy, sortDir }\<close>.
\<close>

definition comp_params :: "page_query \<Rightarrow> query" where
  "comp_params d =
     [''page'' \<mapsto> show_int (page d), ''pageSize'' \<mapsto> show_int (pageSize d),
      ''sortBy'' \<mapsto> sortBy d, ''sortDir'' \<mapsto> sortDir d] ++ map_of (filters d)"

definition count_params :: "page_query \<Rightarrow> query" where
  "count_params d = map_of (filters d) ++ [''sortBy'' \<mapsto> sortBy d, ''sortDir'' \<mapsto> sortDir d]"

text \<open>
  The two data sources as the component calls them. Each call may throw. The calls on
  the object store read the store they are given.
\<close>

record adapters =
  api_count :: "query \<Rightarrow> js_error + nat"
  api_comp :: "query \<Rightarrow> js_error + row list"
  idb_count :: "store \<Rightarrow> filters \<Rightarrow> js_error + nat"
  idb_page :: "store \<Rightarrow> page_query \<Rightarrow> js_error + page_result"

text \<open>The adapters over a server with the given table and a browser with the given locale.\<close>

definition live :: "engine \<Rightarrow> row list \<Rightarrow> (string \<Rightarrow> string \<Rightarrow> int) \<Rightarrow> adapters" where
  "live eng table lc =
     \<lparr> api_count = comp_count eng table,
       api_comp = comp_get eng table,
       idb_count = (\<lambda>s fs. Inr (getCountFromIDB s fs)),
       idb_page = (\<lambda>s q. Inr (getPageFromIDB lc s q)) \<rparr>"

text \<open>
  The messages of the status line, by kind: \<open>Sync_done n\<close> is
  \<open>Done. Cached n rows to your device.\<close>, \<open>Sync_failed m\<close> is \<open>Sync failed: m\<close>.
\<close>

datatype status_msg =
  No_msg | Nothing_to_sync | Sync_done nat | Sync_failed string
  | Export_done | Download_failed

text \<open>
  The state of the component that the claims are about, with the page cache
  (\<open>pageCacheRef.current\<close>) and the object store of the device. The progress and time
  estimates shown while a job runs depend on the clock and are left out; the progress
  fields hold the values set when a job or a page load ends.
\<close>

record app_state =
  st_rows :: "row list"
  st_totalCount :: nat
  st_loading :: bool
  st_fetchProgress :: nat
  st_error :: string
  st_syncing :: bool
  st_syncMsg :: status_msg
  st_syncProgress :: nat
  pageCache :: "string \<Rightarrow> row list option"
  device :: store

subsection \<open>Loading a page\<close>

text \<open>\<open>e?.response?.data?.error || e?.message || "Failed to fetch"\<close>\<close>

definition error_text :: "js_error \<Rightarrow> string" where
  "error_text e =
     (case resp_error e of
        Some m \<Rightarrow> if m \<noteq> [] then m
                  else (case message e of Some m' \<Rightarrow> if m' \<noteq> [] then m' else ''Failed to fetch''
                                        | None \<Rightarrow> ''Failed to fetch'')
      | None \<Rightarrow> (case message e of Some m' \<Rightarrow> if m' \<noteq> [] then m' else ''Failed to fetch''
                                  | None \<Rightarrow> ''Failed to fetch''))"

text \<open>The calls a page load makes, in order.\<close>

datatype call = Api_count query | Api_comp query | Idb_count filters | Idb_page page_query

text \<open>The \<open>catch\<close> block of the page load.\<close>

definition load_failed :: "js_error \<Rightarrow> app_state \<Rightarrow> app_state" where
  "load_failed e s =
     s\<lparr> st_error := error_text e, st_rows := [], st_totalCount := 0, st_fetchProgress := 0 \<rparr>"

text \<open>
  The effect that loads a page. \<open>json\<close> is \<open>JSON.stringify\<close> on the filters. The flag
  \<open>cancelled\<close> is set when the effect is superseded; \<open>c1\<close>, \<open>c2\<close> and \<open>c3\<close> are its
  values after the count, after the data, and when the timer of the \<open>finally\<close> block
  fires. The result is the new state and the calls made.
\<close>

definition cacheKey :: "(filters \<Rightarrow> string) \<Rightarrow> page_query \<Rightarrow> string" where
  "cacheKey json d =
     show_int (page d) @ ''-'' @ show_int (pageSize d) @ ''-'' @ sortBy d @ ''-'' @ sortDir d
     @ ''-'' @ json (filters d)"

definition load_body ::
  "(filters \<Rightarrow> string) \<Rightarrow> adapters \<Rightarrow> bool \<Rightarrow> bool \<Rightarrow> bool \<Rightarrow> page_query \<Rightarrow> app_state
   \<Rightarrow> app_state \<times> call list" where
  "load_body json ad c1 c2 offline d s =
     (if \<not> offline \<and> pageCache s (cacheKey json d) \<noteq> None then
        (case pageCache s (cacheKey json d) of
           Some cached \<Rightarrow> (s\<lparr> st_rows := cached, st_fetchProgress := 100, st_loading := False \<rparr>, [])
         | None \<Rightarrow> (s, []))
      else if offline then
        (case idb_count ad (device s) (filters d) of
           Inl e \<Rightarrow> (load_failed e s, [Idb_count (filters d)])
         | Inr total' \<Rightarrow>
             if c1 then (s, [Idb_count (filters d)])
             else
               (case idb_page ad (device s) d of
                  Inl e \<Rightarrow> (load_failed e (s\<lparr> st_totalCount := total' \<rparr>),
                            [Idb_count (filters d), Idb_page d])
                | Inr res \<Rightarrow>
                    if c2 then (s\<lparr> st_totalCount := total' \<rparr>, [Idb_count (filters d), Idb_page d])
                    else (s\<lparr> st_totalCount := total', st_rows := rows res, st_fetchProgress := 100 \<rparr>,
                          [Idb_count (filters d), Idb_page d])))
      else
        (case api_count ad (comp_params d) of
           Inl e \<Rightarrow> (load_failed e s, [Api_count (comp_params d)])
         | Inr total' \<Rightarrow>
             if c1 then (s, [Api_count (comp_params d)])
             else
               (case api_comp ad (comp_params d) of
                  Inl e \<Rightarrow> (load_failed e (s\<lparr> st_totalCount := total' \<rparr>),
                            [Api_count (comp_params d), Api_comp (comp_params d)])
                | Inr rowsData \<Rightarrow>
                    if c2 then (s\<lparr> st_totalCount := total' \<rparr>,
                                [Api_count (comp_params d), Api_comp (comp_params d)])
                    else (s\<lparr> st_totalCount := total', st_rows := rowsData,
                             pageCache := (pageCache s)(cacheKey json d \<mapsto> rowsData),
                             st_fetchProgress := 100 \<rparr>,
                          [Api_count (comp_params d), Api_comp (comp_params d)]))))"

definition loadPage ::
  "(filters \<Rightarrow> string) \<Rightarrow> adapters \<Rightarrow> bool \<Rightarrow> bool \<Rightarrow> bool \<Rightarrow> bool \<Rightarrow> string \<Rightarrow> page_query
   \<Rightarrow> app_state \<Rightarrow> app_state \<times> call list" where
  "loadPage json ad c1 c2 c3 offline valuationOrder d s =
     (let d' = with_effSortDir valuationOrder d;
          (s', calls) = load_body json ad c1 c2 offline d'
                          (s\<lparr> st_loading := True, st_error := [], st_fetchProgress := 5 \<rparr>)
      in (if c3 then s' else s'\<lparr> st_loading := False \<rparr>, calls))"

subsection \<open>Sync to device\<close>

definition bulkSize :: nat where
  "bulkSize = 10000"

record sync_run =
  s_fetched :: nat
  s_chunks :: "nat list"
  s_store :: store
  s_error :: "js_error option"

text \<open>
  The \<open>while (fetched < total)\<close> loop of \<open>handleSyncToDevice\<close>; \<open>s_chunks\<close> lists the
  sizes of the chunks the fetches returned. A fetch that throws ends the loop with the
  store as it is. Writes to the object store are taken not to fail.
\<close>

function syncLoop ::
  "(query \<Rightarrow> js_error + row list) \<Rightarrow> page_query \<Rightarrow> nat \<Rightarrow> nat \<Rightarrow> nat \<Rightarrow> nat list \<Rightarrow> store
   \<Rightarrow> sync_run" where
  "syncLoop fetch d total' fetched p tr st =
     (if fetched < total' then
        (case fetch (comp_params (d\<lparr> page := int p, pageSize := int bulkSize \<rparr>)) of
           Inl e \<Rightarrow> \<lparr> s_fetched = fetched, s_chunks = tr, s_store = st, s_error = Some e \<rparr>
         | Inr batch \<Rightarrow>
             if batch = []
             then \<lparr> s_fetched = fetched, s_chunks = tr @ [0], s_store = st, s_error = None \<rparr>
             else if length batch < bulkSize
             then \<lparr> s_fetched = fetched + length batch, s_chunks = tr @ [length batch],
                    s_store = upsertRows batch st, s_error = None \<rparr>
             else syncLoop fetch d total' (fetched + length batch) (p + 1) (tr @ [length batch])
                    (upsertRows batch st))
      else \<lparr> s_fetched = fetched, s_chunks = tr, s_store = st, s_error = None \<rparr>)"
  by pat_completeness auto
termination
  by (relation "measure (\<lambda>(fetch, d, total', fetched, p, tr, st). total' - fetched)")
    (auto simp: neq_Nil_conv)

declare syncLoop.simps [simp del]

text \<open>\<open>e?.message || "Unknown error"\<close>\<close>

definition message_or_unknown :: "js_error \<Rightarrow> string" where
  "message_or_unknown e =
     (case message e of Some m \<Rightarrow> if m \<noteq> [] then m else ''Unknown error'' | None \<Rightarrow> ''Unknown error'')"

definition handleSyncToDevice ::
  "adapters \<Rightarrow> string \<Rightarrow> page_query \<Rightarrow> app_state \<Rightarrow> app_state \<times> nat list" where
  "handleSyncToDevice ad valuationOrder d s =
     (let s0 = s\<lparr> st_syncing := True, st_syncMsg := No_msg, st_syncProgress := 0,
                  device := clearAll (device s) \<rparr>;
          d' = with_effSortDir valuationOrder d
      in case api_count ad (count_params d') of
           Inl e \<Rightarrow> (s0\<lparr> st_syncMsg := Sync_failed (message_or_unknown e), st_syncProgress := 0,
                        st_syncing := False \<rparr>, [])
         | Inr total' \<Rightarrow>
             if total' = 0 then (s0\<lparr> st_syncMsg := Nothing_to_sync, st_syncing := False \<rparr>, [])
             else
               (let run = syncLoop (api_comp ad) d' total' 0 1 [] (device s0)
                in case s_error run of
                     Some e \<Rightarrow> (s0\<lparr> device := s_store run,
                                     st_syncMsg := Sync_failed (message_or_unknown e),
                                     st_syncProgress := 0, st_syncing := False \<rparr>, s_chunks run)
                   | None \<Rightarrow> (s0\<lparr> device := s_store run, st_syncProgress := 100,
                                   st_syncMsg := Sync_done (s_fetched run), st_syncing := False \<rparr>,
                               s_chunks run)))"

subsection \<open>Download Excel\<close>

definition chunk :: nat where
  "chunk = 2000"

text \<open>\<open>set.add(k)\<close> on a \<open>Set\<close>, which keeps its members in insertion order.\<close>

definition set_add :: "string \<Rightarrow> string list \<Rightarrow> string list" where
  "set_add k ks = (if k \<in> set ks then ks else ks @ [k])"

text \<open>\<open>new Set(xs)\<close>, listed.\<close>

definition new_Set :: "string list \<Rightarrow> string list" where
  "new_Set xs = fold set_add xs []"

text \<open>
  \<open>batch.forEach((r) => Object.keys(r || {}).forEach((k) => headersSeen.add(k)))\<close>;
  the keys of a record are listed in property order.
\<close>

definition see_headers :: "row list \<Rightarrow> string list \<Rightarrow> string list" where
  "see_headers batch headersSeen = fold (\<lambda>r hs. fold set_add (map fst r) hs) batch headersSeen"

text \<open>The offline branch: pages of the object store while \<open>got < exportTotal\<close>.\<close>

function exportOfflineLoop ::
  "(page_query \<Rightarrow> js_error + page_result) \<Rightarrow> page_query \<Rightarrow> nat \<Rightarrow> nat \<Rightarrow> nat \<Rightarrow> row list
   \<Rightarrow> js_error + row list" where
  "exportOfflineLoop getPage d exportTotal got p exportRows =
     (if got < exportTotal then
        (case getPage (d\<lparr> page := int p, pageSize := int chunk \<rparr>) of
           Inl e \<Rightarrow> Inl e
         | Inr res \<Rightarrow>
             if rows res = [] then Inr exportRows
             else if length (rows res) < chunk then Inr (exportRows @ rows res)
             else exportOfflineLoop getPage d exportTotal (got + length (rows res)) (p + 1)
                    (exportRows @ rows res))
      else Inr exportRows)"
  by pat_completeness auto
termination
  by (relation "measure (\<lambda>(getPage, d, exportTotal, got, p, exportRows). exportTotal - got)")
    (auto simp: neq_Nil_conv)

declare exportOfflineLoop.simps [simp del]

text \<open>
  The server branch: \<open>while (true)\<close>, left only by an empty or short chunk or by a
  failure. \<open>None\<close> is the loop that never ends.
\<close>

partial_function (option) exportRemoteLoop ::
  "(query \<Rightarrow> js_error + row list) \<Rightarrow> page_query \<Rightarrow> nat \<Rightarrow> row list \<Rightarrow> string list
   \<Rightarrow> (js_error + row list \<times> string list) option" where
  "exportRemoteLoop fetch d p exportRows headersSeen =
     (case fetch (comp_params (d\<lparr> page := int p, pageSize := int chunk \<rparr>)) of
        Inl e \<Rightarrow> Some (Inl e)
      | Inr batch \<Rightarrow>
          if batch = [] then Some (Inr (exportRows, headersSeen))
          else if length batch < chunk
          then Some (Inr (exportRows @ batch, see_headers batch headersSeen))
          else exportRemoteLoop fetch d (p + 1) (exportRows @ batch) (see_headers batch headersSeen))"

record sheet =
  headers :: "string list"
  body :: "row list"

text \<open>The header row and the normalized records handed to the spreadsheet writer.\<close>

definition make_sheet :: "row list \<Rightarrow> string list \<Rightarrow> sheet" where
  "make_sheet exportRows headersSeen =
     (let hs = new_Set (BASE_COLS @ headersSeen)
      in \<lparr> headers = hs,
           body = map (\<lambda>r. map (\<lambda>h. (h, nullish_or (getProp r h) (SStr ''''))) hs) exportRows \<rparr>)"

definition handleDownloadExcel ::
  "adapters \<Rightarrow> bool \<Rightarrow> string \<Rightarrow> page_query \<Rightarrow> app_state \<Rightarrow> (app_state \<times> sheet option) option" where
  "handleDownloadExcel ad offline valuationOrder d s =
     (let s0 = s\<lparr> st_loading := True, st_syncing := True, st_syncProgress := 0, st_syncMsg := No_msg \<rparr>;
          d' = with_effSortDir valuationOrder d;
          failed = (s0\<lparr> st_syncMsg := Download_failed, st_syncProgress := 0, st_loading := False,
                       st_syncing := False \<rparr>, None)
      in case (if offline then idb_count ad (device s0) (filters d') else api_count ad (count_params d')) of
           Inl e \<Rightarrow> Some failed
         | Inr exportTotal \<Rightarrow>
             (case (if offline
                    then (case exportOfflineLoop (idb_page ad (device s0)) d' exportTotal 0 1 [] of
                            Inl e \<Rightarrow> Some (Inl e)
                          | Inr exportRows \<Rightarrow> Some (Inr (exportRows, new_Set BASE_COLS)))
                    else exportRemoteLoop (api_comp ad) d' 1 [] (new_Set BASE_COLS)) of
                None \<Rightarrow> None
              | Some (Inl e) \<Rightarrow> Some failed
              | Some (Inr (exportRows, headersSeen)) \<Rightarrow>
                  Some (s0\<lparr> st_syncMsg := Export_done, st_syncProgress := 100, st_loading := False,
                           st_syncing := False \<rparr>,
                        Some (make_sheet exportRows headersSeen))))"

text \<open>The state of the component when it is mounted in a browser with an empty object store.\<close>

definition initial_state :: app_state where
  "initial_state =
     \<lparr> st_rows = [], st_totalCount = 0, st_loading = False, st_fetchProgress = 0, st_error = [],
       st_syncing = False, st_syncMsg = No_msg, st_syncProgress = 0, pageCache = Map.empty,
       device = [] \<rparr>"

section \<open>Theorems\<close>

subsection \<open>The object store\<close>

lemma key_lt_irrefl: "\<not> key_lt a a"
  by (cases a) auto

lemma key_lt_trans: "key_lt a b \<Longrightarrow> key_lt b c \<Longrightarrow> key_lt a c"
  by (cases a; cases b; cases c) auto

lemma key_lt_total: "a \<noteq> b \<Longrightarrow> \<not> key_lt a b \<Longrightarrow> key_lt b a"
  by (cases a; cases b) auto

lemma key_lt_asym: "key_lt a b \<Longrightarrow> \<not> key_lt b a"
  using key_lt_irrefl key_lt_trans by blast

lemma put_keys: "fst ` set (put k v s) = insert k (fst ` set s)"
proof -
  show ?thesis
    by (induction s) (force split: if_splits)+
qed

lemma put_ok: "store_ok s \<Longrightarrow> store_ok (put k v s)"
proof (induction s)
  case Nil
  then show ?case by (simp add: store_ok_def)
next
  case (Cons p s)
  obtain k' v' where p: "p = (k', v')" by (cases p)
  from Cons.prems have tl: "store_ok s" and hd: "\<forall>x \<in> fst ` set s. key_lt k' x"
    by (auto simp: store_ok_def p)
  show ?case
  proof (cases "k = k'")
    case True
    with Cons.prems show ?thesis by (simp add: store_ok_def p)
  next
    case False
    show ?thesis
    proof (cases "key_lt k k'")
      case True
      with hd have "\<forall>x \<in> fst ` set s. key_lt k x" using key_lt_trans by blast
      with True False Cons.prems show ?thesis by (auto simp: store_ok_def p)
    next
      case nlt: False
      with False have "key_lt k' k" using key_lt_total by blast
      with hd have "\<forall>x \<in> fst ` set (put k v s). key_lt k' x" by (simp add: put_keys)
      moreover have "store_ok (put k v s)" using Cons.IH tl by simp
      ultimately show ?thesis using False nlt by (auto simp: store_ok_def p)
    qed
  qed
qed

lemma map_of_put: "map_of (put k v s) = (map_of s)(k \<mapsto> v)"
  by (induction s) (auto simp: fun_upd_twist)

lemma store_eqI:
  "store_ok s \<Longrightarrow> store_ok t \<Longrightarrow> map_of s = map_of t \<Longrightarrow> s = t"
proof (induction s arbitrary: t)
  case Nil
  then show ?case by (cases t) (auto simp: fun_eq_iff split: if_splits)
next
  case (Cons p s)
  obtain k v where p: "p = (k, v)" by (cases p)
  from Cons.prems(3) obtain q t' where t: "t = q # t'"
    by (cases t) (auto simp: p fun_eq_iff split: if_splits)
  obtain k' v' where q: "q = (k', v')" by (cases q)
  from Cons.prems(1) have s_ok: "store_ok s" and s_hd: "\<forall>x \<in> fst ` set s. key_lt k x"
    by (auto simp: store_ok_def p)
  from Cons.prems(2) have t_ok: "store_ok t'" and t_hd: "\<forall>x \<in> fst ` set t'. key_lt k' x"
    by (auto simp: store_ok_def t q)
  have doms: "insert k (fst ` set s) = insert k' (fst ` set t')"
  proof -
    have "fst ` set (p # s) = fst ` set t"
      using Cons.prems(3) by (metis dom_map_of_conv_image_fst)
    then show ?thesis by (simp add: p t q)
  qed
  have kk: "k = k'"
  proof (rule ccontr)
    assume ne: "k \<noteq> k'"
    with doms have "k \<in> fst ` set t'" "k' \<in> fst ` set s" by auto
    with s_hd t_hd have "key_lt k' k" "key_lt k k'" by auto
    then show False using key_lt_asym by blast
  qed
  have vv: "v = v'"
    using fun_cong [OF Cons.prems(3), of k] by (simp add: p t q kk)
  have k_s: "k \<notin> fst ` set s" using s_hd key_lt_irrefl by blast
  have k_t: "k \<notin> fst ` set t'" using t_hd key_lt_irrefl kk by blast
  have "map_of s = map_of t'"
  proof
    fix x
    show "map_of s x = map_of t' x"
    proof (cases "x = k")
      case True
      have "map_of s k = None" "map_of t' k = None"
        using k_s k_t by (simp_all add: map_of_eq_None_iff)
      with True show ?thesis by simp
    next
      case False
      then show ?thesis using fun_cong [OF Cons.prems(3), of x] by (simp add: p t q kk)
    qed
  qed
  then have "s = t'" using Cons.IH s_ok t_ok by blast
  then show ?case by (simp add: p t q kk vv)
qed

lemma upsertLoop_ok: "store_ok s \<Longrightarrow> store_ok (upsertLoop i rs s)"
  by (induction rs arbitrary: i s) (auto intro: put_ok)

lemma map_of_upsertLoop:
  "map_of (upsertLoop i rs s) = map_of s ++ map_of (upsertLoop i rs [])"
proof (induction rs arbitrary: i s)
  case Nil
  then show ?case by simp
next
  case (Cons r rs)
  let ?k = "makeKey r i"
  let ?v = "AList.update ''rowKey'' (makeKey r i) r"
  let ?G = "map_of (upsertLoop (Suc i) rs [])"
  have a: "upsertLoop i (r # rs) s' = upsertLoop (Suc i) rs (put ?k ?v s')" for s'
    by simp
  have b: "map_of (upsertLoop (Suc i) rs (put ?k ?v s')) = map_of (put ?k ?v s') ++ ?G" for s'
    by (rule Cons.IH)
  have c: "map_of (put ?k ?v s) = map_of s ++ map_of (put ?k ?v [])"
    by (rule ext) (simp add: map_of_put map_add_def)
  show ?case
    unfolding a b c by (simp only: map_add_assoc)
qed

lemma upsertRows_ok: "store_ok s \<Longrightarrow> store_ok (upsertRows batch s)"
  by (simp add: upsertRows_def upsertLoop_ok)

text \<open>
  Claim C6: \<open>upsertRows\<close> is idempotent. On every store, writing a batch a second time
  right after the first leaves the store exactly as the first write left it.
\<close>

theorem upsertRows_idempotent:
  "store_ok s \<Longrightarrow> upsertRows batch (upsertRows batch s) = upsertRows batch s"
proof -
  assume ok: "store_ok s"
  show ?thesis
  proof (cases "batch = []")
    case True
    then show ?thesis by (simp add: upsertRows_def)
  next
    case False
    let ?u = "upsertLoop 0 batch"
    have "map_of (?u (?u s)) = (map_of s ++ map_of (?u [])) ++ map_of (?u [])"
      using map_of_upsertLoop [of 0 batch "?u s"] map_of_upsertLoop [of 0 batch s] by simp
    also have "\<dots> = map_of (?u s)"
      using map_of_upsertLoop [of 0 batch s] by (simp add: fun_eq_iff map_add_def split: option.splits)
    finally have "?u (?u s) = ?u s"
      using store_eqI upsertLoop_ok ok by blast
    with False show ?thesis by (simp add: upsertRows_def)
  qed
qed

theorem upsertRows_idempotent_witness:
  "store_ok [(SStr ''A1'', [(''Folio_Dpid'', SStr ''A1'')])]
   \<and> upsertRows [[(''Folio_Dpid'', SStr ''B2'')], [(''Company_Name'', SStr ''Acme'')]]
        (upsertRows [[(''Folio_Dpid'', SStr ''B2'')], [(''Company_Name'', SStr ''Acme'')]]
           [(SStr ''A1'', [(''Folio_Dpid'', SStr ''A1'')])])
     = upsertRows [[(''Folio_Dpid'', SStr ''B2'')], [(''Company_Name'', SStr ''Acme'')]]
         [(SStr ''A1'', [(''Folio_Dpid'', SStr ''A1'')])]"
proof -
  have h: "store_ok [(SStr ''A1'', [(''Folio_Dpid'', SStr ''A1'')])]"
    by (simp add: store_ok_def)
  from upsertRows_idempotent [OF h] h show ?thesis
    by blast
qed

subsection \<open>Counting and paging on the device\<close>

lemma fold_count: "fold (\<lambda>r c. if P r then c + 1 else c) xs (n::nat) = n + length (filter P xs)"
  by (induction xs arbitrary: n) auto

lemma fold_collect: "fold (\<lambda>r acc. if P r then acc @ [r] else acc) xs ys = ys @ filter P xs"
  by (induction xs arbitrary: ys) auto

lemma length_sort_insert: "length (sort_insert cmp x xs) = Suc (length xs)"
  by (induction xs) auto

lemma length_sort_js: "length (sort_js cmp xs) = length xs"
  by (induction xs) (auto simp: length_sort_insert)

lemma getCountFromIDB_filter: "getCountFromIDB s fs = length (filter (\<lambda>r. rowMatches r fs) (map snd s))"
  by (simp add: getCountFromIDB_def fold_count)

text \<open>
  Claim C10: the \<open>totalCount\<close> that \<open>getPageFromIDB\<close> returns is the value of
  \<open>getCountFromIDB\<close> on the same store and filters, and both are the number of stored
  records that satisfy \<open>rowMatches\<close>, whatever the page, page size and sort parameters.
\<close>

theorem totalCount_eq: "totalCount (getPageFromIDB lc s q) = getCountFromIDB s (filters q)
  \<and> getCountFromIDB s (filters q) = length (filter (\<lambda>r. rowMatches r (filters q)) (map snd s))"
  by (simp add: getPageFromIDB_def Let_def fold_collect getCountFromIDB_filter)

lemma length_slice_js: "0 \<le> start \<Longrightarrow> 0 \<le> n \<Longrightarrow> length (slice_js xs start (start + n)) \<le> nat n"
  by (auto simp: slice_js_def Let_def min_def)

lemma starts_with_iff: "starts_with hay needle \<longleftrightarrow> (\<exists>ss. hay = needle @ ss)"
  by (induction hay needle rule: starts_with.induct) auto

lemma includes_js_iff: "includes_js hay needle \<longleftrightarrow> (\<exists>ps ss. hay = ps @ needle @ ss)"
proof (induction hay)
  case Nil
  then show ?case by auto
next
  case (Cons h hs)
  show ?case
  proof
    assume "includes_js (h # hs) needle"
    then consider "starts_with (h # hs) needle" | "includes_js hs needle" by auto
    then show "\<exists>ps ss. h # hs = ps @ needle @ ss"
    proof cases
      case 1
      then obtain ss where "h # hs = needle @ ss" using starts_with_iff by blast
      then have "h # hs = [] @ needle @ ss" by simp
      then show ?thesis by blast
    next
      case 2
      then obtain ps ss where "hs = ps @ needle @ ss" using Cons.IH by blast
      then have "h # hs = (h # ps) @ needle @ ss" by simp
      then show ?thesis by blast
    qed
  next
    assume "\<exists>ps ss. h # hs = ps @ needle @ ss"
    then obtain ps ss where e: "h # hs = ps @ needle @ ss" by blast
    show "includes_js (h # hs) needle"
    proof (cases ps)
      case Nil
      with e have "starts_with (h # hs) needle" using starts_with_iff by auto
      then show ?thesis by simp
    next
      case (Cons p ps')
      with e have "hs = ps' @ needle @ ss" by simp
      then have "includes_js hs needle" using Cons.IH by blast
      then show ?thesis by simp
    qed
  qed
qed

lemma rowMatches_iff:
  "rowMatches r fs \<longleftrightarrow>
     (\<forall>(k, v) \<in> set fs. v \<noteq> [] \<longrightarrow>
        includes_js (toLowerCase (String_js (nullish_or (getProp r k) (SStr '''')))) (toLowerCase v))"
  by (induction r fs rule: rowMatches.induct) auto


subsection \<open>Parsing and planning on the server\<close>

lemma digit_char_props:
  "d < 10 \<Longrightarrow> is_digit (digit_char d) \<and> digit_val (digit_char d) = d"
  by (auto simp: numeral_eq_Suc less_Suc_eq digit_char_def is_digit_def digit_val_def)

lemma is_digit_not_ws: "is_digit c \<Longrightarrow> \<not> is_ws c \<and> c \<noteq> CHR ''-'' \<and> c \<noteq> CHR ''+''"
  by (auto simp: is_digit_def is_ws_def less_eq_char_def)

lemma show_nat_digits: "\<forall>c \<in> set (show_nat n). is_digit c"
proof (induction n rule: show_nat.induct)
  case (1 n)
  show ?case
  proof (cases "n < 10")
    case True
    then show ?thesis by (subst show_nat.simps) (simp add: digit_char_props)
  next
    case False
    moreover have "is_digit (digit_char (n mod 10))" by (simp add: digit_char_props)
    ultimately show ?thesis using 1 by (subst show_nat.simps) auto
  qed
qed

lemma show_nat_not_Nil: "show_nat n \<noteq> []"
  by (subst show_nat.simps) simp

lemma show_nat_value: "foldl (\<lambda>a c. a * 10 + digit_val c) 0 (show_nat n) = n"
proof (induction n rule: show_nat.induct)
  case (1 n)
  show ?case
  proof (cases "n < 10")
    case True
    then show ?thesis by (subst show_nat.simps) (simp add: digit_char_props)
  next
    case False
    then show ?thesis using 1 by (subst show_nat.simps) (simp add: digit_char_props)
  qed
qed

lemma parseInt_show_nat: "parseInt (show_nat n) = Some (int n)"
proof -
  obtain c cs where e: "show_nat n = c # cs"
    using show_nat_not_Nil by (cases "show_nat n") auto
  have dig: "\<forall>c \<in> set (show_nat n). is_digit c" by (rule show_nat_digits)
  with e have c: "is_digit c" by simp
  have dw: "dropWhile is_ws (show_nat n) = show_nat n"
    using e c is_digit_not_ws by simp
  have tw: "takeWhile is_digit (show_nat n) = show_nat n"
    using dig by (simp add: takeWhile_eq_all_conv)
  have hd: "hd (show_nat n) \<noteq> CHR ''-''" "hd (show_nat n) \<noteq> CHR ''+''"
    using e c is_digit_not_ws by auto
  show ?thesis
    unfolding parseInt_def Let_def dw
    using hd show_nat_not_Nil show_nat_value by (simp add: tw)
qed

lemma parseInt_show_int: "0 \<le> i \<Longrightarrow> parseInt (show_int i) = Some i"
  by (simp add: show_int_def parseInt_show_nat)

lemma comp_plan_paging:
  assumes "q ''pageSize'' = Some (show_int ps)" "1 \<le> ps" "ps \<le> 10000"
    and "q ''page'' = Some (show_int p)" "1 \<le> p"
  shows "q_pageSize (comp_plan q) = Some ps \<and> q_page (comp_plan q) = Some p
         \<and> q_offset (comp_plan q) = Some ((p - 1) * ps)"
  using assms
  by (simp add: comp_plan_def Let_def parseInt_show_int Math_max_def Math_min_def split: prod.splits)

lemma comp_plan_where: "(q_where (comp_plan q), q_values (comp_plan q)) = buildWhere q"
  by (simp add: comp_plan_def Let_def split: prod.splits)

lemma comp_get_page:
  assumes "q ''pageSize'' = Some (show_int ps)" "1 \<le> ps" "ps \<le> 10000"
    and "q ''page'' = Some (show_int p)" "1 \<le> p"
  shows "comp_get eng table q =
           Inr (take (nat ps) (drop (nat ((p - 1) * ps))
                 (sort_js (order_cmp eng (q_sortBy (comp_plan q)) (q_sortDir (comp_plan q)))
                    (filter (where_holds eng (buildWhere q)) table))))"
proof -
  have "0 \<le> (p - 1) * ps" using assms(2,5) by simp
  then show ?thesis
    using comp_plan_paging [OF assms] assms(2)
    by (simp add: comp_get_def run_select_def comp_plan_where)
qed

lemma not_cols: "''page'' \<notin> set COLS" "''pageSize'' \<notin> set COLS" "''sortBy'' \<notin> set COLS"
  "''sortDir'' \<notin> set COLS"
  by (simp_all add: COLS_def)

lemma comp_params_paging:
  assumes "fst ` set (filters d) \<subseteq> set COLS"
  shows "comp_params d ''page'' = Some (show_int (page d))"
    and "comp_params d ''pageSize'' = Some (show_int (pageSize d))"
proof -
  have "''page'' \<notin> fst ` set (filters d)" "''pageSize'' \<notin> fst ` set (filters d)"
    using assms not_cols by blast+
  then have "map_of (filters d) ''page'' = None" "map_of (filters d) ''pageSize'' = None"
    by (simp_all add: map_of_eq_None_iff)
  then show "comp_params d ''page'' = Some (show_int (page d))"
    and "comp_params d ''pageSize'' = Some (show_int (pageSize d))"
    by (simp_all add: comp_params_def map_add_def)
qed

lemma buildWhere_cong: "(\<forall>k \<in> set COLS. q k = q' k) \<Longrightarrow> buildWhere q = buildWhere q'"
  unfolding buildWhere_def by (rule fold_cong) auto

lemma comp_plan_pageSize_range:
  "q_pageSize (comp_plan q) = Some ps \<Longrightarrow> 1 \<le> ps \<and> ps \<le> 10000"
  by (auto simp: comp_plan_def Let_def Math_max_def Math_min_def split: prod.splits)

lemma comp_plan_page_range: "q_page (comp_plan q) = Some p \<Longrightarrow> 1 \<le> p"
  by (auto simp: comp_plan_def Let_def Math_max_def split: prod.splits)

lemma comp_plan_sortDir: "q_sortDir (comp_plan q) = ''ASC'' \<or> q_sortDir (comp_plan q) = ''DESC''"
  by (simp add: comp_plan_def Let_def split: option.splits prod.splits)

lemma comp_plan_sortBy: "q_sortBy (comp_plan q) \<in> set COLS"
proof -
  have c: "''Company_Name'' \<in> set COLS" by (simp add: COLS_def)
  show ?thesis
    using c by (simp add: comp_plan_def Let_def split: option.splits prod.splits)
qed

lemma comp_plan_sortBy_default:
  assumes "q ''sortBy'' \<notin> Some ` set COLS"
  shows "comp_plan (q(''sortBy'' \<mapsto> ''Company_Name'')) = comp_plan q"
proof -
  have bw: "buildWhere (q(''sortBy'' \<mapsto> ''Company_Name'')) = buildWhere q"
    by (rule buildWhere_cong) (use not_cols in auto)
  have c: "''Company_Name'' \<in> set COLS" by (simp add: COLS_def)
  show ?thesis
    using assms c by (auto simp: comp_plan_def Let_def bw split: option.splits)
qed

subsection \<open>Row keys\<close>

lemma present_not_null: "present a = Some v \<Longrightarrow> v \<noteq> SNull"
  by (cases a rule: present.cases) auto

lemma makeKey_not_null: "makeKey r idx \<noteq> SNull"
  by (auto simp: makeKey_def dest: present_not_null split: option.splits)

text \<open>
  Claim C7, as stated: the key derived for a row does not depend on the position of the
  row in its batch. It fails for a row with neither \<open>id\<close> nor \<open>Folio_Dpid\<close>: the empty
  record gets the key \<open>row---0\<close> at position 0 and \<open>row---1\<close> at position 1.
\<close>

theorem makeKey_position_counterexample:
  "makeKey [] 0 = SStr ''row---0'' \<and> makeKey [] 1 = SStr ''row---1''
   \<and> makeKey [] 0 \<noteq> makeKey [] 1"
  by (simp add: makeKey_def getProp_def or_text_def show_nat.simps digit_char_def)

lemma show_nat_inject: "show_nat i = show_nat j \<Longrightarrow> i = j"
  by (metis show_nat_value)

text \<open>
  Claim C7, amended: a row that carries an \<open>id\<close> or a \<open>Folio_Dpid\<close> other than
  \<open>null\<close> gets that value as its key at every position. A row with neither gets the
  composite text of company, first name, last name and position, and its keys at two
  positions are equal exactly when the positions are.
\<close>

theorem makeKey_position_dependence:
  "(present (getProp r ''id'') \<noteq> None \<or> present (getProp r ''Folio_Dpid'') \<noteq> None \<longrightarrow>
      makeKey r i = makeKey r j
      \<and> makeKey r i = nullish_or (getProp r ''id'') (nullish_or (getProp r ''Folio_Dpid'') SNull))
   \<and> (present (getProp r ''id'') = None \<and> present (getProp r ''Folio_Dpid'') = None \<longrightarrow>
      makeKey r i = SStr (or_text (getProp r ''Company_Name'') ''row'' @ ''-''
                          @ or_text (getProp r ''Investor_First_Name'') '''' @ ''-''
                          @ or_text (getProp r ''Investor_Last_Name'') '''' @ ''-''
                          @ show_nat i)
      \<and> (makeKey r i = makeKey r j \<longleftrightarrow> i = j))"
proof (intro conjI impI)
  assume "present (getProp r ''id'') \<noteq> None \<or> present (getProp r ''Folio_Dpid'') \<noteq> None"
  then show "makeKey r i = makeKey r j"
    and "makeKey r i = nullish_or (getProp r ''id'') (nullish_or (getProp r ''Folio_Dpid'') SNull)"
    by (auto simp: makeKey_def nullish_or_def split: option.splits)
next
  assume n: "present (getProp r ''id'') = None \<and> present (getProp r ''Folio_Dpid'') = None"
  then show "makeKey r i = SStr (or_text (getProp r ''Company_Name'') ''row'' @ ''-''
                          @ or_text (getProp r ''Investor_First_Name'') '''' @ ''-''
                          @ or_text (getProp r ''Investor_Last_Name'') '''' @ ''-''
                          @ show_nat i)"
    by (simp add: makeKey_def)
  from n show "makeKey r i = makeKey r j \<longleftrightarrow> i = j"
    by (auto simp: makeKey_def dest: show_nat_inject)
qed

theorem makeKey_position_dependence_witness:
  "present (getProp [(''Folio_Dpid'', SStr ''IN300''), (''Company_Name'', SStr ''Acme'')] ''Folio_Dpid'')
     = Some (SStr ''IN300'')
   \<and> makeKey [(''Folio_Dpid'', SStr ''IN300''), (''Company_Name'', SStr ''Acme'')] 0
     = makeKey [(''Folio_Dpid'', SStr ''IN300''), (''Company_Name'', SStr ''Acme'')] 7
   \<and> makeKey [(''Folio_Dpid'', SStr ''IN300''), (''Company_Name'', SStr ''Acme'')] 0
     = nullish_or (getProp [(''Folio_Dpid'', SStr ''IN300''), (''Company_Name'', SStr ''Acme'')] ''id'')
         (nullish_or (getProp [(''Folio_Dpid'', SStr ''IN300''), (''Company_Name'', SStr ''Acme'')]
                        ''Folio_Dpid'') SNull)
   \<and> present (getProp [(''Company_Name'', SStr ''Acme''), (''Folio_Dpid'', SNull)] ''id'') = None
   \<and> present (getProp [(''Company_Name'', SStr ''Acme''), (''Folio_Dpid'', SNull)] ''Folio_Dpid'') = None
   \<and> makeKey [(''Company_Name'', SStr ''Acme''), (''Folio_Dpid'', SNull)] 0
     = SStr (or_text (getProp [(''Company_Name'', SStr ''Acme''), (''Folio_Dpid'', SNull)] ''Company_Name'') ''row''
             @ ''-''
             @ or_text (getProp [(''Company_Name'', SStr ''Acme''), (''Folio_Dpid'', SNull)] ''Investor_First_Name'') ''''
             @ ''-''
             @ or_text (getProp [(''Company_Name'', SStr ''Acme''), (''Folio_Dpid'', SNull)] ''Investor_Last_Name'') ''''
             @ ''-'' @ show_nat 0)
   \<and> makeKey [(''Company_Name'', SStr ''Acme''), (''Folio_Dpid'', SNull)] 0
     \<noteq> makeKey [(''Company_Name'', SStr ''Acme''), (''Folio_Dpid'', SNull)] 7
   \<and> makeKey [(''Company_Name'', SStr ''Acme''), (''Folio_Dpid'', SNull)] 7
     = makeKey [(''Company_Name'', SStr ''Acme''), (''Folio_Dpid'', SNull)] 7"
proof -
  let ?r = "[(''Folio_Dpid'', SStr ''IN300''), (''Company_Name'', SStr ''Acme'')]"
  let ?u = "[(''Company_Name'', SStr ''Acme''), (''Folio_Dpid'', SNull)]"
  have p: "present (getProp ?r ''Folio_Dpid'') = Some (SStr ''IN300'')"
    by (simp add: getProp_def)
  then have h: "present (getProp ?r ''id'') \<noteq> None \<or> present (getProp ?r ''Folio_Dpid'') \<noteq> None"
    by simp
  have n: "present (getProp ?u ''id'') = None" "present (getProp ?u ''Folio_Dpid'') = None"
    by (simp_all add: getProp_def)
  have ne: "(0::nat) \<noteq> 7" by simp
  note A = makeKey_position_dependence [of ?r 0 7]
  note B = makeKey_position_dependence [of ?u 0 7]
  note C = makeKey_position_dependence [of ?u 7 7]
  from A h have a: "makeKey ?r 0 = makeKey ?r 7"
    "makeKey ?r 0 = nullish_or (getProp ?r ''id'') (nullish_or (getProp ?r ''Folio_Dpid'') SNull)"
    by blast+
  from B n have b: "makeKey ?u 0 = SStr (or_text (getProp ?u ''Company_Name'') ''row'' @ ''-''
             @ or_text (getProp ?u ''Investor_First_Name'') '''' @ ''-''
             @ or_text (getProp ?u ''Investor_Last_Name'') '''' @ ''-'' @ show_nat 0)"
    by blast
  from B n ne have c: "makeKey ?u 0 \<noteq> makeKey ?u 7"
    by blast
  from C n have d: "makeKey ?u 7 = makeKey ?u 7"
    by blast
  from p a n b c d show ?thesis
    by blast
qed

subsection \<open>Page length\<close>

text \<open>
  Claim C3: for every valid descriptor (page at least 1, page size from 1 to 10000,
  filters on known columns) both adapters return at most \<open>pageSize\<close> records: the
  object store through \<open>slice\<close>, the server through \<open>LIMIT\<close>, where the request
  succeeds.
\<close>

theorem fetchPage_length:
  assumes "1 \<le> page d" and "1 \<le> pageSize d" and "pageSize d \<le> 10000"
    and "fst ` set (filters d) \<subseteq> set COLS"
  shows "length (rows (getPageFromIDB lc s d)) \<le> nat (pageSize d)
         \<and> (\<exists>rs. comp_get eng table (comp_params d) = Inr rs \<and> length rs \<le> nat (pageSize d))"
proof
  have "0 \<le> (page d - 1) * pageSize d" using assms(1,2) by simp
  then show "length (rows (getPageFromIDB lc s d)) \<le> nat (pageSize d)"
    using assms(2) by (simp add: getPageFromIDB_def Let_def length_slice_js)
next
  show "\<exists>rs. comp_get eng table (comp_params d) = Inr rs \<and> length rs \<le> nat (pageSize d)"
    using comp_get_page [OF comp_params_paging(2) [OF assms(4)] assms(2,3)
        comp_params_paging(1) [OF assms(4)] assms(1), of eng table]
    by simp
qed

theorem fetchPage_length_witness:
  "1 \<le> page \<lparr> page = 2, pageSize = 1, sortBy = ''Company_Name'', sortDir = ''asc'',
               filters = [(''Company_Name'', ''ac'')] \<rparr>
   \<and> 1 \<le> pageSize \<lparr> page = 2, pageSize = 1, sortBy = ''Company_Name'', sortDir = ''asc'',
                     filters = [(''Company_Name'', ''ac'')] \<rparr>
   \<and> pageSize \<lparr> page = 2, pageSize = 1, sortBy = ''Company_Name'', sortDir = ''asc'',
                 filters = [(''Company_Name'', ''ac'')] \<rparr> \<le> 10000
   \<and> fst ` set (filters \<lparr> page = 2, pageSize = 1, sortBy = ''Company_Name'', sortDir = ''asc'',
                           filters = [(''Company_Name'', ''ac'')] \<rparr>) \<subseteq> set COLS
   \<and> length (rows (getPageFromIDB (\<lambda>a b. 0)
          [(SStr ''k1'', [(''Company_Name'', SStr ''Acme'')]),
           (SStr ''k2'', [(''Company_Name'', SStr ''Tacit'')])]
          \<lparr> page = 2, pageSize = 1, sortBy = ''Company_Name'', sortDir = ''asc'',
            filters = [(''Company_Name'', ''ac'')] \<rparr>)) \<le> nat 1
   \<and> (\<exists>rs. comp_get \<lparr> holds = (\<lambda>c v r. True), order_cmp = (\<lambda>c d a b. 0) \<rparr>
               [[(''Company_Name'', SStr ''Acme'')], [(''Company_Name'', SStr ''Tacit'')]]
               (comp_params \<lparr> page = 2, pageSize = 1, sortBy = ''Company_Name'', sortDir = ''asc'',
                              filters = [(''Company_Name'', ''ac'')] \<rparr>) = Inr rs
             \<and> length rs \<le> nat 1)"
proof -
  let ?d = "\<lparr> page = 2, pageSize = 1, sortBy = ''Company_Name'', sortDir = ''asc'',
              filters = [(''Company_Name'', ''ac'')] \<rparr>"
  have h1: "1 \<le> page ?d" and h2: "1 \<le> pageSize ?d" and h3: "pageSize ?d \<le> 10000"
    by simp_all
  have h4: "fst ` set (filters ?d) \<subseteq> set COLS"
    by (simp add: COLS_def)
  from fetchPage_length [OF h1 h2 h3 h4] h1 h2 h3 h4 show ?thesis
    by simp
qed

subsection \<open>Sort column\<close>

text \<open>
  The object store builds no query and \<open>getPageFromIDB\<close> checks no list of columns: it
  is called with the sort column of the table header that was clicked. On a column that
  no stored record has, every comparison is of two empty texts, and the page is cut from
  the matching records in key order.
\<close>

lemma sort_js_ties: "(\<forall>x \<in> set xs. \<forall>y \<in> set xs. cmp x y \<le> 0) \<Longrightarrow> sort_js cmp xs = xs"
proof (induction xs)
  case Nil
  then show ?case by simp
next
  case (Cons x xs)
  then have "sort_js cmp xs = xs" by simp
  moreover have "sort_insert cmp x xs = x # xs"
    using Cons.prems by (cases xs) auto
  ultimately show ?case by simp
qed

lemma getPageFromIDB_unknown_column:
  assumes "\<forall>r \<in> snd ` set s. getProp r (sortBy d) = None" and "lc [] [] = 0"
  shows "rows (getPageFromIDB lc s d) =
           slice_js (filter (\<lambda>r. rowMatches r (filters d)) (map snd s))
             ((page d - 1) * pageSize d) ((page d - 1) * pageSize d + pageSize d)"
proof -
  have "compareRows lc (sortBy d) (sortDir d) a b = 0"
    if "a \<in> snd ` set s" "b \<in> snd ` set s" for a b
  proof -
    from that assms(1) have "getProp a (sortBy d) = None" "getProp b (sortBy d) = None"
      by auto
    then show ?thesis
      using assms(2) by (simp add: compareRows_def nullish_or_def)
  qed
  then have "sort_js (compareRows lc (sortBy d) (sortDir d)) (filter (\<lambda>r. rowMatches r (filters d)) (map snd s))
               = filter (\<lambda>r. rowMatches r (filters d)) (map snd s)"
    by (intro sort_js_ties) auto
  then show ?thesis
    by (simp add: getPageFromIDB_def Let_def fold_collect)
qed

text \<open>
  Claim C2, as stated, is about every request: one whose sort column is outside the list
  of known columns is answered in the order of \<open>Company_Name\<close>. It fails on the object
  store: with the sort column \<open>DROP TABLE\<close> the two stored records come back in key
  order, \<open>B\<close> before \<open>A\<close>, while the sort column \<open>Company_Name\<close> gives \<open>A\<close> before
  \<open>B\<close>. The comparison of texts used here is by code units; on two empty texts every
  locale comparison gives 0.
\<close>

theorem local_sort_no_fallback_counterexample:
  "rows (getPageFromIDB (\<lambda>a b. if a = b then 0 else if a < b then - 1 else 1)
           [(SStr ''k1'', [(''Company_Name'', SStr ''B'')]), (SStr ''k2'', [(''Company_Name'', SStr ''A'')])]
           \<lparr> page = 1, pageSize = 10, sortBy = ''DROP TABLE'', sortDir = ''asc'', filters = [] \<rparr>)
     = [[(''Company_Name'', SStr ''B'')], [(''Company_Name'', SStr ''A'')]]
   \<and> rows (getPageFromIDB (\<lambda>a b. if a = b then 0 else if a < b then - 1 else 1)
           [(SStr ''k1'', [(''Company_Name'', SStr ''B'')]), (SStr ''k2'', [(''Company_Name'', SStr ''A'')])]
           \<lparr> page = 1, pageSize = 10, sortBy = ''Company_Name'', sortDir = ''asc'', filters = [] \<rparr>)
     = [[(''Company_Name'', SStr ''A'')], [(''Company_Name'', SStr ''B'')]]
   \<and> store_ok [(SStr ''k1'', [(''Company_Name'', SStr ''B'')]), (SStr ''k2'', [(''Company_Name'', SStr ''A'')])]"
  by (simp add: getPageFromIDB_def Let_def compareRows_def getProp_def nullish_or_def slice_js_def
      store_ok_def less_char_def)

text \<open>
  Claim C2, amended: a request to \<open>GET /comp\<close> whose \<open>sortBy\<close> is absent or outside
  \<open>COLS\<close> is planned with the sort column \<open>Company_Name\<close>; the text of its query is
  built from the table name, the clauses of \<open>buildWhere\<close>, \<open>ORDER BY `Company_Name`\<close>
  and the direction, so the value sent is not in it; its answer is that of the same
  request with \<open>sortBy=Company_Name\<close>, and with a valid page and page size it is the
  requested page of the matching records ordered by \<open>Company_Name\<close>, not a failure.
  \<open>getPageFromIDB\<close> has no list of known columns: on a sort column that no stored
  record has it returns the requested page of the matching records in key order.
\<close>

theorem sort_fallback_by_adapter:
  "(q ''sortBy'' \<notin> Some ` set COLS \<longrightarrow>
      q_sortBy (comp_plan q) = ''Company_Name''
      \<and> comp_sql tn (comp_plan q) =
          [CHR 0x0A] @ ''      SELECT *'' @ [CHR 0x0A] @ ''      FROM '' @ tn @ [CHR 0x0A] @ ''      ''
          @ (if fst (buildWhere q) \<noteq> [] then ''WHERE '' @ join_js '' AND '' (fst (buildWhere q)) else [])
          @ [CHR 0x0A] @ ''      ORDER BY '' @ [CHR 0x60] @ ''Company_Name'' @ [CHR 0x60] @ '' ''
          @ q_sortDir (comp_plan q)
          @ [CHR 0x0A] @ ''      LIMIT ? OFFSET ?'' @ [CHR 0x0A] @ ''    ''
      \<and> comp_sql tn (comp_plan q) = comp_sql tn (comp_plan (q(''sortBy'' \<mapsto> ''Company_Name'')))
      \<and> comp_get eng table q = comp_get eng table (q(''sortBy'' \<mapsto> ''Company_Name''))
      \<and> (q ''pageSize'' = Some (show_int ps) \<and> 1 \<le> ps \<and> ps \<le> 10000
           \<and> q ''page'' = Some (show_int p) \<and> 1 \<le> p \<longrightarrow>
          comp_get eng table q =
            Inr (take (nat ps) (drop (nat ((p - 1) * ps))
                  (sort_js (order_cmp eng ''Company_Name'' (q_sortDir (comp_plan q)))
                     (filter (where_holds eng (buildWhere q)) table))))))
   \<and> ((\<forall>r \<in> snd ` set s. getProp r (sortBy d) = None) \<and> lc [] [] = 0 \<longrightarrow>
        rows (getPageFromIDB lc s d) =
          slice_js (filter (\<lambda>r. rowMatches r (filters d)) (map snd s))
            ((page d - 1) * pageSize d) ((page d - 1) * pageSize d + pageSize d))"
proof (intro conjI impI)
  assume a: "q ''sortBy'' \<notin> Some ` set COLS"
  show s: "q_sortBy (comp_plan q) = ''Company_Name''"
    using a by (auto simp: comp_plan_def Let_def split: option.splits prod.splits)
  have w: "q_where (comp_plan q) = fst (buildWhere q)"
    using comp_plan_where [of q] by (metis fst_conv)
  show "comp_sql tn (comp_plan q) =
          [CHR 0x0A] @ ''      SELECT *'' @ [CHR 0x0A] @ ''      FROM '' @ tn @ [CHR 0x0A] @ ''      ''
          @ (if fst (buildWhere q) \<noteq> [] then ''WHERE '' @ join_js '' AND '' (fst (buildWhere q)) else [])
          @ [CHR 0x0A] @ ''      ORDER BY '' @ [CHR 0x60] @ ''Company_Name'' @ [CHR 0x60] @ '' ''
          @ q_sortDir (comp_plan q)
          @ [CHR 0x0A] @ ''      LIMIT ? OFFSET ?'' @ [CHR 0x0A] @ ''    ''"
    by (simp add: comp_sql_def s w)
  show "comp_sql tn (comp_plan q) = comp_sql tn (comp_plan (q(''sortBy'' \<mapsto> ''Company_Name'')))"
    by (simp add: comp_plan_sortBy_default [of q, OF a])
  show "comp_get eng table q = comp_get eng table (q(''sortBy'' \<mapsto> ''Company_Name''))"
    by (simp add: comp_plan_sortBy_default [of q, OF a] comp_get_def)
next
  assume a: "q ''sortBy'' \<notin> Some ` set COLS"
    and pg: "q ''pageSize'' = Some (show_int ps) \<and> 1 \<le> ps \<and> ps \<le> 10000
             \<and> q ''page'' = Some (show_int p) \<and> 1 \<le> p"
  have s: "q_sortBy (comp_plan q) = ''Company_Name''"
    using a by (auto simp: comp_plan_def Let_def split: option.splits prod.splits)
  from pg have "q ''pageSize'' = Some (show_int ps)" "1 \<le> ps" "ps \<le> 10000"
    "q ''page'' = Some (show_int p)" "1 \<le> p"
    by blast+
  from comp_get_page [OF this, of eng table]
  show "comp_get eng table q =
          Inr (take (nat ps) (drop (nat ((p - 1) * ps))
                (sort_js (order_cmp eng ''Company_Name'' (q_sortDir (comp_plan q)))
                   (filter (where_holds eng (buildWhere q)) table))))"
    by (simp add: s)
next
  assume "(\<forall>r \<in> snd ` set s. getProp r (sortBy d) = None) \<and> lc [] [] = 0"
  then show "rows (getPageFromIDB lc s d) =
          slice_js (filter (\<lambda>r. rowMatches r (filters d)) (map snd s))
            ((page d - 1) * pageSize d) ((page d - 1) * pageSize d + pageSize d)"
    using getPageFromIDB_unknown_column [of s d lc] by blast
qed


theorem sort_fallback_by_adapter_witness:
  "[''sortBy'' \<mapsto> ''DROP TABLE'', ''page'' \<mapsto> ''1'', ''pageSize'' \<mapsto> ''2''] ''sortBy'' \<notin> Some ` set COLS
   \<and> [''sortBy'' \<mapsto> ''DROP TABLE'', ''page'' \<mapsto> ''1'', ''pageSize'' \<mapsto> ''2''] ''pageSize'' = Some (show_int 2)
   \<and> [''sortBy'' \<mapsto> ''DROP TABLE'', ''page'' \<mapsto> ''1'', ''pageSize'' \<mapsto> ''2''] ''page'' = Some (show_int 1)
   \<and> q_sortBy (comp_plan [''sortBy'' \<mapsto> ''DROP TABLE'', ''page'' \<mapsto> ''1'', ''pageSize'' \<mapsto> ''2'']) = ''Company_Name''
   \<and> comp_sql ''comp'' (comp_plan [''sortBy'' \<mapsto> ''DROP TABLE'', ''page'' \<mapsto> ''1'', ''pageSize'' \<mapsto> ''2''])
     = [CHR 0x0A] @ ''      SELECT *'' @ [CHR 0x0A] @ ''      FROM comp'' @ [CHR 0x0A] @ ''      ''
         @ [CHR 0x0A] @ ''      ORDER BY '' @ [CHR 0x60] @ ''Company_Name'' @ [CHR 0x60] @ '' ASC''
         @ [CHR 0x0A] @ ''      LIMIT ? OFFSET ?'' @ [CHR 0x0A] @ ''    ''
   \<and> comp_get \<lparr> holds = (\<lambda>c v r. True), order_cmp = (\<lambda>c d a b. 0) \<rparr> [[(''Company_Name'', SStr ''Acme'')]]
        [''sortBy'' \<mapsto> ''DROP TABLE'', ''page'' \<mapsto> ''1'', ''pageSize'' \<mapsto> ''2'']
     = comp_get \<lparr> holds = (\<lambda>c v r. True), order_cmp = (\<lambda>c d a b. 0) \<rparr> [[(''Company_Name'', SStr ''Acme'')]]
        ([''sortBy'' \<mapsto> ''DROP TABLE'', ''page'' \<mapsto> ''1'', ''pageSize'' \<mapsto> ''2''](''sortBy'' \<mapsto> ''Company_Name''))
   \<and> comp_get \<lparr> holds = (\<lambda>c v r. True), order_cmp = (\<lambda>c d a b. 0) \<rparr> [[(''Company_Name'', SStr ''Acme'')]]
        [''sortBy'' \<mapsto> ''DROP TABLE'', ''page'' \<mapsto> ''1'', ''pageSize'' \<mapsto> ''2'']
     = Inr [[(''Company_Name'', SStr ''Acme'')]]
   \<and> getProp [(''Company_Name'', SStr ''B'')] ''DROP TABLE'' = None
   \<and> getProp [(''Company_Name'', SStr ''A'')] ''DROP TABLE'' = None
   \<and> (\<lambda>a b. if a = b then 0 else if a < b then - 1 else 1) ([]::string) [] = (0::int)
   \<and> rows (getPageFromIDB (\<lambda>a b. if a = b then 0 else if a < b then - 1 else 1)
           [(SStr ''k1'', [(''Company_Name'', SStr ''B'')]), (SStr ''k2'', [(''Company_Name'', SStr ''A'')])]
           \<lparr> page = 1, pageSize = 10, sortBy = ''DROP TABLE'', sortDir = ''asc'', filters = [] \<rparr>)
     = [[(''Company_Name'', SStr ''B'')], [(''Company_Name'', SStr ''A'')]]"
proof -
  let ?q = "[''sortBy'' \<mapsto> ''DROP TABLE'', ''page'' \<mapsto> ''1'', ''pageSize'' \<mapsto> ''2'']"
  let ?eng = "\<lparr> holds = (\<lambda>c v r. True), order_cmp = (\<lambda>c d a b. 0) \<rparr>"
  let ?table = "[[(''Company_Name'', SStr ''Acme'')]]"
  let ?lc = "(\<lambda>a b. if a = b then 0 else if a < b then - 1 else 1) :: string \<Rightarrow> string \<Rightarrow> int"
  let ?s = "[(SStr ''k1'', [(''Company_Name'', SStr ''B'')]), (SStr ''k2'', [(''Company_Name'', SStr ''A'')])]"
  let ?d = "\<lparr> page = 1, pageSize = 10, sortBy = ''DROP TABLE'', sortDir = ''asc'', filters = [] \<rparr>"
  have h: "?q ''sortBy'' \<notin> Some ` set COLS"
    by (simp add: COLS_def)
  have h2: "?q ''pageSize'' = Some (show_int 2)" and h3: "?q ''page'' = Some (show_int 1)"
    by (simp_all add: show_int_def show_nat.simps digit_char_def)
  have ar: "(1::int) \<le> 2" "(2::int) \<le> 10000" "(1::int) \<le> 1" by simp_all
  have g: "getProp [(''Company_Name'', SStr ''B'')] ''DROP TABLE'' = None"
    "getProp [(''Company_Name'', SStr ''A'')] ''DROP TABLE'' = None"
    by (simp_all add: getProp_def)
  then have l1: "\<forall>r \<in> snd ` set ?s. getProp r (sortBy ?d) = None"
    by simp
  have l2: "?lc [] [] = 0" by simp
  note T = sort_fallback_by_adapter [where q = ?q and eng = ?eng and table = ?table and tn = "''comp''"
      and ps = 2 and p = 1 and s = ?s and d = ?d and lc = ?lc]
  from T h have a1: "q_sortBy (comp_plan ?q) = ''Company_Name''"
    and a3: "comp_get ?eng ?table ?q = comp_get ?eng ?table (?q(''sortBy'' \<mapsto> ''Company_Name''))"
    by blast+
  from T h have a2: "comp_sql ''comp'' (comp_plan ?q) =
          [CHR 0x0A] @ ''      SELECT *'' @ [CHR 0x0A] @ ''      FROM '' @ ''comp'' @ [CHR 0x0A] @ ''      ''
          @ (if fst (buildWhere ?q) \<noteq> [] then ''WHERE '' @ join_js '' AND '' (fst (buildWhere ?q)) else [])
          @ [CHR 0x0A] @ ''      ORDER BY '' @ [CHR 0x60] @ ''Company_Name'' @ [CHR 0x60] @ '' ''
          @ q_sortDir (comp_plan ?q)
          @ [CHR 0x0A] @ ''      LIMIT ? OFFSET ?'' @ [CHR 0x0A] @ ''    ''"
    by blast
  have bw: "buildWhere ?q = ([], [])"
    by (simp add: buildWhere_def COLS_def)
  have sd: "q_sortDir (comp_plan ?q) = ''ASC''"
    by (simp add: comp_plan_def Let_def split: prod.splits)
  have a2': "comp_sql ''comp'' (comp_plan ?q) = [CHR 0x0A] @ ''      SELECT *'' @ [CHR 0x0A] @ ''      FROM comp'' @ [CHR 0x0A] @ ''      ''
         @ [CHR 0x0A] @ ''      ORDER BY '' @ [CHR 0x60] @ ''Company_Name'' @ [CHR 0x60] @ '' ASC''
         @ [CHR 0x0A] @ ''      LIMIT ? OFFSET ?'' @ [CHR 0x0A] @ ''    ''"
    unfolding a2 bw sd by simp
  from T h h2 h3 ar have r: "comp_get ?eng ?table ?q =
      Inr (take (nat 2) (drop (nat ((1 - 1) * 2))
            (sort_js (order_cmp ?eng ''Company_Name'' (q_sortDir (comp_plan ?q)))
               (filter (where_holds ?eng (buildWhere ?q)) ?table))))"
    by blast
  have r': "comp_get ?eng ?table ?q = Inr ?table"
    unfolding r bw by (simp add: where_holds_def)
  from T l1 l2 have loc: "rows (getPageFromIDB ?lc ?s ?d) =
          slice_js (filter (\<lambda>r. rowMatches r (filters ?d)) (map snd ?s))
            ((page ?d - 1) * pageSize ?d) ((page ?d - 1) * pageSize ?d + pageSize ?d)"
    by blast
  have loc': "rows (getPageFromIDB ?lc ?s ?d)
                = [[(''Company_Name'', SStr ''B'')], [(''Company_Name'', SStr ''A'')]]"
    unfolding loc by (simp add: slice_js_def)
  show ?thesis
    by (intro conjI) (fact h h2 h3 a1 a2' a3 r' g l2 loc')+
qed

subsection \<open>Normalizing the paging parameters\<close>

text \<open>
  Claim C4 says that every raw input is normalized without failure to a page size
  between 1 and 10000. The code at \<open>pageSize=abc\<close>: \<open>parseInt\<close> gives \<open>NaN\<close>,
  which \<open>Math.max\<close> and \<open>Math.min\<close> pass on, so the page size is \<open>NaN\<close> and the
  request ends in the status 500.
\<close>

theorem nonnumeric_pageSize_not_clamped:
  "q_pageSize (comp_plan [''pageSize'' \<mapsto> ''abc'']) = None
   \<and> comp_get eng table [''pageSize'' \<mapsto> ''abc'']
       = Inl (JsError (Some ''Failed to fetch comp'') (Some ''Request failed with status code 500''))"
  by (simp add: comp_get_def run_select_def comp_plan_def Let_def parseInt_def is_ws_def is_digit_def
      Math_max_def Math_min_def less_eq_char_def split: prod.splits)

subsection \<open>Filter semantics of the two adapters\<close>

text \<open>
  Claim C1 says that blank patterns impose no constraint and that both adapters decide
  alike. The code at the filter \<open>Address = " "\<close> (one space) and a record with
  \<open>Address = "abc"\<close>: \<open>rowMatches\<close> rejects the record and the page from the object
  store is empty, while \<open>buildWhere\<close> drops the blank pattern and the server returns
  the record.
\<close>

theorem blank_filter_adapters_differ:
  "rowMatches [(''Address'', SStr ''abc'')] [(''Address'', '' '')] = False
   \<and> rows (getPageFromIDB lc [(SStr ''k'', [(''Address'', SStr ''abc'')])]
            \<lparr> page = 1, pageSize = 20, sortBy = ''Company_Name'', sortDir = ''asc'',
              filters = [(''Address'', '' '')] \<rparr>) = []
   \<and> buildWhere (comp_params \<lparr> page = 1, pageSize = 20, sortBy = ''Company_Name'', sortDir = ''asc'',
                                filters = [(''Address'', '' '')] \<rparr>) = ([], [])
   \<and> comp_get eng [[(''Address'', SStr ''abc'')]]
        (comp_params \<lparr> page = 1, pageSize = 20, sortBy = ''Company_Name'', sortDir = ''asc'',
                       filters = [(''Address'', '' '')] \<rparr>)
       = Inr [[(''Address'', SStr ''abc'')]]"
proof -
  let ?d = "\<lparr> page = 1, pageSize = 20, sortBy = ''Company_Name'', sortDir = ''asc'',
              filters = [(''Address'', '' '')] \<rparr>"
  have m: "rowMatches [(''Address'', SStr ''abc'')] [(''Address'', '' '')] = False"
    by (simp add: getProp_def nullish_or_def toLowerCase_def lower_char_def less_eq_char_def)
  have l: "rows (getPageFromIDB lc [(SStr ''k'', [(''Address'', SStr ''abc'')])] ?d) = []"
    by (simp add: getPageFromIDB_def Let_def slice_js_def getProp_def nullish_or_def toLowerCase_def
        lower_char_def less_eq_char_def)
  have b: "buildWhere (comp_params ?d) = ([], [])"
    by (simp add: buildWhere_def COLS_def comp_params_def trim_js_def is_ws_def map_add_def)
  have f: "fst ` set (filters ?d) \<subseteq> set COLS" by (simp add: COLS_def)
  have r: "comp_get eng [[(''Address'', SStr ''abc'')]] (comp_params ?d) = Inr [[(''Address'', SStr ''abc'')]]"
    using comp_get_page [OF comp_params_paging(2) [OF f] _ _ comp_params_paging(1) [OF f], of eng "[[(''Address'', SStr ''abc'')]]"]
    by (simp add: b where_holds_def)
  from m l b r show ?thesis by blast
qed

subsection \<open>Sync to device\<close>

lemma syncLoop_full:
  assumes "fetched < t"
    and "fetch (comp_params (d\<lparr> page := int p, pageSize := int bulkSize \<rparr>)) = Inr batch"
    and "length batch = bulkSize"
  shows "syncLoop fetch d t fetched p tr st =
           syncLoop fetch d t (fetched + bulkSize) (p + 1) (tr @ [bulkSize]) (upsertRows batch st)"
proof -
  have "batch \<noteq> []" using assms(3) by (auto simp: bulkSize_def)
  then show ?thesis
    using assms by (subst syncLoop.simps) simp
qed

lemma syncLoop_short:
  assumes "fetched < t"
    and "fetch (comp_params (d\<lparr> page := int p, pageSize := int bulkSize \<rparr>)) = Inr batch"
    and "batch \<noteq> []" and "length batch < bulkSize"
  shows "syncLoop fetch d t fetched p tr st =
           \<lparr> s_fetched = fetched + length batch, s_chunks = tr @ [length batch],
             s_store = upsertRows batch st, s_error = None \<rparr>"
  using assms by (subst syncLoop.simps) simp

lemma syncLoop_exit:
  "s_error (syncLoop fetch d t fetched p tr st) = None \<Longrightarrow>
     t \<le> s_fetched (syncLoop fetch d t fetched p tr st)
     \<or> (s_chunks (syncLoop fetch d t fetched p tr st) \<noteq> []
        \<and> last (s_chunks (syncLoop fetch d t fetched p tr st)) < bulkSize)"
proof (induction fetch d t fetched p tr st rule: syncLoop.induct)
  case (1 fetch d t fetched p tr st)
  show ?case
  proof (cases "fetched < t")
    case False
    then show ?thesis by (subst (1 2 3) syncLoop.simps) simp
  next
    case True
    show ?thesis
    proof (cases "fetch (comp_params (d\<lparr> page := int p, pageSize := int bulkSize \<rparr>))")
      case (Inl e)
      with True "1.prems" show ?thesis by (subst (asm) syncLoop.simps) simp
    next
      case (Inr batch)
      show ?thesis
      proof (cases "batch = [] \<or> length batch < bulkSize")
        case True
        with \<open>fetched < t\<close> Inr show ?thesis
          by (subst (1 2 3) syncLoop.simps) (auto simp: bulkSize_def)
      next
        case False
        then have eq: "syncLoop fetch d t fetched p tr st =
            syncLoop fetch d t (fetched + length batch) (p + 1) (tr @ [length batch]) (upsertRows batch st)"
          using \<open>fetched < t\<close> Inr by (subst syncLoop.simps) simp
        show ?thesis
          unfolding eq
          using "1.IH" [OF \<open>fetched < t\<close> Inr] False "1.prems" [unfolded eq] by simp
      qed
    qed
  qed
qed

lemma buildWhere_count_params: "buildWhere (count_params d) = buildWhere (map_of (filters d))"
  by (rule buildWhere_cong) (use not_cols in \<open>auto simp: count_params_def map_add_def\<close>)

lemma buildWhere_comp_params: "buildWhere (comp_params d) = buildWhere (map_of (filters d))"
  by (rule buildWhere_cong) (use not_cols in \<open>auto simp: comp_params_def map_add_def split: option.splits\<close>)

lemma api_comp_chunk:
  assumes "fst ` set (filters d) \<subseteq> set COLS" and "1 \<le> p"
  shows "\<exists>batch. comp_get eng table (comp_params (d\<lparr> page := int p, pageSize := int bulkSize \<rparr>)) = Inr batch
           \<and> length batch =
               min bulkSize (length (filter (where_holds eng (buildWhere (map_of (filters d)))) table)
                             - (p - 1) * bulkSize)"
proof -
  let ?d = "d\<lparr> page := int p, pageSize := int bulkSize \<rparr>"
  have f: "fst ` set (filters ?d) \<subseteq> set COLS" using assms(1) by simp
  have ps: "1 \<le> pageSize ?d" "pageSize ?d \<le> 10000" and pg: "1 \<le> page ?d"
    using assms(2) by (simp_all add: bulkSize_def)
  have "nat (int p - 1) = p - 1" using assms(2) by linarith
  then have off: "nat ((int p - 1) * int bulkSize) = (p - 1) * bulkSize"
    using assms(2) by (simp add: nat_mult_distrib)
  show ?thesis
    using comp_get_page [OF comp_params_paging(2) [OF f] ps comp_params_paging(1) [OF f] pg, of eng table]
    by (simp add: off buildWhere_comp_params length_sort_js min.commute)
qed

text \<open>
  Claim C5: when exactly 23000 records of the server match the filters, the sync counts
  23000, makes three chunk fetches that return 10000, 10000 and 3000 records, ends
  with the message that 23000 records are cached; and a loop that ends without a
  failure has either reached the total or received a chunk shorter than requested.
\<close>

theorem sync_23000:
  assumes keys: "fst ` set (filters d) \<subseteq> set COLS"
    and n: "length (filter (where_holds eng (buildWhere (map_of (filters d)))) table) = 23000"
  shows "api_count (live eng table lc) (count_params (with_effSortDir valuationOrder d)) = Inr 23000
         \<and> snd (handleSyncToDevice (live eng table lc) valuationOrder d s) = [10000, 10000, 3000]
         \<and> st_syncMsg (fst (handleSyncToDevice (live eng table lc) valuationOrder d s)) = Sync_done 23000
         \<and> st_syncProgress (fst (handleSyncToDevice (live eng table lc) valuationOrder d s)) = 100
         \<and> (\<forall>fetch d0 t st.
               s_error (syncLoop fetch d0 t 0 1 [] st) = None \<longrightarrow>
               t \<le> s_fetched (syncLoop fetch d0 t 0 1 [] st)
               \<or> (s_chunks (syncLoop fetch d0 t 0 1 [] st) \<noteq> []
                  \<and> last (s_chunks (syncLoop fetch d0 t 0 1 [] st)) < bulkSize))"
proof -
  let ?d = "with_effSortDir valuationOrder d"
  let ?fetch = "comp_get eng table"
  have keys': "fst ` set (filters ?d) \<subseteq> set COLS" using keys by (simp add: with_effSortDir_def)
  have n': "length (filter (where_holds eng (buildWhere (map_of (filters ?d)))) table) = 23000"
    using n by (simp add: with_effSortDir_def)
  have cnt: "comp_count eng table (count_params ?d) = Inr 23000"
    using n' by (simp add: comp_count_def buildWhere_count_params)
  have c: "\<exists>batch. ?fetch (comp_params (?d\<lparr> page := int p, pageSize := int bulkSize \<rparr>)) = Inr batch
                \<and> length batch = min bulkSize (23000 - (p - 1) * bulkSize)" if "1 \<le> p" for p
    using api_comp_chunk [OF keys' that, of eng table] n' by simp
  obtain b1 where b1: "?fetch (comp_params (?d\<lparr> page := int 1, pageSize := int bulkSize \<rparr>)) = Inr b1"
    and l1: "length b1 = bulkSize"
    using c [of 1] by (auto simp: bulkSize_def)
  obtain b2 where b2: "?fetch (comp_params (?d\<lparr> page := int 2, pageSize := int bulkSize \<rparr>)) = Inr b2"
    and l2: "length b2 = bulkSize"
    using c [of 2] by (auto simp: bulkSize_def)
  obtain b3 where b3: "?fetch (comp_params (?d\<lparr> page := int 3, pageSize := int bulkSize \<rparr>)) = Inr b3"
    and l3: "length b3 = 3000"
    using c [of 3] by (auto simp: bulkSize_def)
  have ne3: "b3 \<noteq> []" and sh3: "length b3 < bulkSize"
    using l3 by (auto simp: bulkSize_def)
  have "syncLoop ?fetch ?d 23000 0 1 [] [] =
          syncLoop ?fetch ?d 23000 bulkSize 2 [bulkSize] (upsertRows b1 [])"
    using syncLoop_full [where fetch = ?fetch and d = ?d and p = 1 and batch = b1 and fetched = 0
        and t = 23000 and tr = "[]" and st = "[]"] b1 l1
    by (simp add: numeral_2_eq_2)
  also have "\<dots> = syncLoop ?fetch ?d 23000 (bulkSize + bulkSize) 3 [bulkSize, bulkSize]
                      (upsertRows b2 (upsertRows b1 []))"
    using syncLoop_full [where fetch = ?fetch and d = ?d and p = 2 and batch = b2
        and fetched = bulkSize and t = 23000 and tr = "[bulkSize]" and st = "upsertRows b1 []"] b2 l2
    by (simp add: bulkSize_def numeral_2_eq_2 numeral_3_eq_3)
  also have "\<dots> = \<lparr> s_fetched = bulkSize + bulkSize + length b3,
                      s_chunks = [bulkSize, bulkSize, length b3],
                      s_store = upsertRows b3 (upsertRows b2 (upsertRows b1 [])), s_error = None \<rparr>"
    using syncLoop_short [where fetch = ?fetch and d = ?d and p = 3 and batch = b3
        and fetched = "bulkSize + bulkSize" and t = 23000
        and tr = "[bulkSize, bulkSize]" and st = "upsertRows b2 (upsertRows b1 [])"] b3 ne3 sh3
    by (simp add: bulkSize_def)
  finally have run: "syncLoop ?fetch ?d 23000 0 1 [] [] =
      \<lparr> s_fetched = 23000, s_chunks = [10000, 10000, 3000],
        s_store = upsertRows b3 (upsertRows b2 (upsertRows b1 [])), s_error = None \<rparr>"
    by (simp add: bulkSize_def l3)
  have "handleSyncToDevice (live eng table lc) valuationOrder d s =
          (s\<lparr> st_syncing := True, st_syncMsg := No_msg, st_syncProgress := 0,
              device := upsertRows b3 (upsertRows b2 (upsertRows b1 [])), st_syncProgress := 100,
              st_syncMsg := Sync_done 23000, st_syncing := False \<rparr>, [10000, 10000, 3000])"
    by (simp add: handleSyncToDevice_def Let_def live_def cnt clearAll_def run [simplified])
  then show ?thesis
    using syncLoop_exit cnt by (simp add: live_def)
qed


theorem sync_23000_witness:
  "fst ` set (filters \<lparr> page = 1, pageSize = 20, sortBy = ''Company_Name'', sortDir = ''asc'', filters = [] \<rparr>)
     \<subseteq> set COLS
   \<and> length (filter (where_holds \<lparr> holds = (\<lambda>c v r. True), order_cmp = (\<lambda>c d a b. 0) \<rparr>
                      (buildWhere (map_of (filters \<lparr> page = 1, pageSize = 20, sortBy = ''Company_Name'',
                                                      sortDir = ''asc'', filters = [] \<rparr>))))
               (replicate 23000 [(''Folio_Dpid'', SStr ''F1'')])) = 23000
   \<and> snd (handleSyncToDevice
            (live \<lparr> holds = (\<lambda>c v r. True), order_cmp = (\<lambda>c d a b. 0) \<rparr>
               (replicate 23000 [(''Folio_Dpid'', SStr ''F1'')]) (\<lambda>a b. 0))
            [] \<lparr> page = 1, pageSize = 20, sortBy = ''Company_Name'', sortDir = ''asc'', filters = [] \<rparr>
            initial_state) = [10000, 10000, 3000]
   \<and> st_syncMsg (fst (handleSyncToDevice
            (live \<lparr> holds = (\<lambda>c v r. True), order_cmp = (\<lambda>c d a b. 0) \<rparr>
               (replicate 23000 [(''Folio_Dpid'', SStr ''F1'')]) (\<lambda>a b. 0))
            [] \<lparr> page = 1, pageSize = 20, sortBy = ''Company_Name'', sortDir = ''asc'', filters = [] \<rparr>
            initial_state)) = Sync_done 23000
   \<and> s_error (syncLoop (\<lambda>q. Inr [])
         \<lparr> page = 1, pageSize = 20, sortBy = ''Company_Name'', sortDir = ''asc'', filters = [] \<rparr>
         1 0 1 [] []) = None
   \<and> last (s_chunks (syncLoop (\<lambda>q. Inr [])
         \<lparr> page = 1, pageSize = 20, sortBy = ''Company_Name'', sortDir = ''asc'', filters = [] \<rparr>
         1 0 1 [] [])) < bulkSize"
proof -
  let ?d = "\<lparr> page = 1, pageSize = 20, sortBy = ''Company_Name'', sortDir = ''asc'', filters = [] \<rparr>"
  let ?eng = "\<lparr> holds = (\<lambda>c v r. True), order_cmp = (\<lambda>c d a b. 0) \<rparr>"
  let ?table = "replicate 23000 [(''Folio_Dpid'', SStr ''F1'')]"
  have h1: "fst ` set (filters ?d) \<subseteq> set COLS" by simp
  have h2: "length (filter (where_holds ?eng (buildWhere (map_of (filters ?d)))) ?table) = 23000"
    by (simp add: buildWhere_def COLS_def where_holds_def)
  have run: "syncLoop (\<lambda>q. Inr []) ?d 1 0 1 [] [] =
               \<lparr> s_fetched = 0, s_chunks = [0], s_store = [], s_error = None \<rparr>"
    by (subst syncLoop.simps) simp
  have h3: "s_error (syncLoop (\<lambda>q. Inr []) ?d 1 0 1 [] []) = None"
    unfolding run by simp
  note T = sync_23000 [OF h1 h2, where lc = "\<lambda>a b. 0" and valuationOrder = "[]" and s = initial_state]
  from T have a: "snd (handleSyncToDevice (live ?eng ?table (\<lambda>a b. 0)) [] ?d initial_state) = [10000, 10000, 3000]"
    and b: "st_syncMsg (fst (handleSyncToDevice (live ?eng ?table (\<lambda>a b. 0)) [] ?d initial_state)) = Sync_done 23000"
    by blast+
  from T h3 have "(1::nat) \<le> s_fetched (syncLoop (\<lambda>q. Inr []) ?d 1 0 1 [] [])
     \<or> (s_chunks (syncLoop (\<lambda>q. Inr []) ?d 1 0 1 [] []) \<noteq> []
        \<and> last (s_chunks (syncLoop (\<lambda>q. Inr []) ?d 1 0 1 [] [])) < bulkSize)"
    by blast
  then have c: "last (s_chunks (syncLoop (\<lambda>q. Inr []) ?d 1 0 1 [] [])) < bulkSize"
    unfolding run by simp
  from h1 h2 a b h3 c show ?thesis by blast
qed

subsection \<open>Loading a page\<close>

lemma error_text_not_empty: "error_text e \<noteq> []"
  by (auto simp: error_text_def split: option.splits)

lemma load_failed_totalCount: "load_failed e (s\<lparr> st_totalCount := t \<rparr>) = load_failed e s"
  by (simp add: load_failed_def)

lemma load_body_failure:
  assumes miss: "offline \<or> pageCache s (cacheKey json d) = None"
    and fail: "(if offline then idb_count ad (device s) (filters d) = Inl e
                else api_count ad (comp_params d) = Inl e)
               \<or> (\<not> c1 \<and> (if offline
                            then (\<exists>t. idb_count ad (device s) (filters d) = Inr t)
                                 \<and> idb_page ad (device s) d = Inl e
                            else (\<exists>t. api_count ad (comp_params d) = Inr t)
                                 \<and> api_comp ad (comp_params d) = Inl e))"
  shows "fst (load_body json ad c1 c2 offline d s) = load_failed e s"
proof (cases offline)
  case True
  with fail show ?thesis
    by (auto simp: load_body_def load_failed_totalCount split: sum.splits)
next
  case False
  with miss have m: "pageCache s (cacheKey json d) = None" by simp
  from False fail show ?thesis
    by (auto simp: load_body_def m load_failed_totalCount split: sum.splits)
qed

lemma load_body_cache_hit:
  assumes "pageCache s (cacheKey json d) = Some cached"
  shows "load_body json ad c1 c2 False d s =
           (s\<lparr> st_rows := cached, st_fetchProgress := 100, st_loading := False \<rparr>, [])"
  using assms by (simp add: load_body_def)

text \<open>
  Claim C8: when the count or the data call of a page load throws (in server mode after a
  cache miss, or in offline mode), the visible records become empty, the total zero, a
  non-empty message is shown, and the page cache is what it was; a later load in server
  mode of a descriptor that was cached before is answered from the cache, with no call.
\<close>

theorem page_load_failure:
  assumes miss: "offline \<or> pageCache s (cacheKey json (with_effSortDir valuationOrder d)) = None"
    and fail: "(if offline
                then idb_count ad (device s) (filters (with_effSortDir valuationOrder d)) = Inl e
                else api_count ad (comp_params (with_effSortDir valuationOrder d)) = Inl e)
               \<or> (\<not> c1 \<and> (if offline
                            then (\<exists>t. idb_count ad (device s) (filters (with_effSortDir valuationOrder d)) = Inr t)
                                 \<and> idb_page ad (device s) (with_effSortDir valuationOrder d) = Inl e
                            else (\<exists>t. api_count ad (comp_params (with_effSortDir valuationOrder d)) = Inr t)
                                 \<and> api_comp ad (comp_params (with_effSortDir valuationOrder d)) = Inl e))"
  shows "st_rows (fst (loadPage json ad c1 c2 c3 offline valuationOrder d s)) = []
         \<and> st_totalCount (fst (loadPage json ad c1 c2 c3 offline valuationOrder d s)) = 0
         \<and> st_error (fst (loadPage json ad c1 c2 c3 offline valuationOrder d s)) = error_text e
         \<and> error_text e \<noteq> []
         \<and> pageCache (fst (loadPage json ad c1 c2 c3 offline valuationOrder d s)) = pageCache s
         \<and> (\<forall>ad2 b1 b2 b3 vo2 d2 cached.
               pageCache s (cacheKey json (with_effSortDir vo2 d2)) = Some cached \<longrightarrow>
               snd (loadPage json ad2 b1 b2 b3 False vo2 d2
                      (fst (loadPage json ad c1 c2 c3 offline valuationOrder d s))) = []
               \<and> st_rows (fst (loadPage json ad2 b1 b2 b3 False vo2 d2
                      (fst (loadPage json ad c1 c2 c3 offline valuationOrder d s)))) = cached)"
proof -
  let ?s0 = "s\<lparr> st_loading := True, st_error := [], st_fetchProgress := 5 \<rparr>"
  let ?d = "with_effSortDir valuationOrder d"
  have "fst (load_body json ad c1 c2 offline ?d ?s0) = load_failed e ?s0"
    by (rule load_body_failure) (use miss fail in \<open>auto split: if_splits\<close>)
  then have s1: "fst (loadPage json ad c1 c2 c3 offline valuationOrder d s) =
                   (if c3 then load_failed e ?s0 else (load_failed e ?s0)\<lparr> st_loading := False \<rparr>)"
    by (simp add: loadPage_def Let_def case_prod_beta)
  let ?s1 = "fst (loadPage json ad c1 c2 c3 offline valuationOrder d s)"
  have a: "st_rows ?s1 = []" "st_totalCount ?s1 = 0" "st_error ?s1 = error_text e"
    "pageCache ?s1 = pageCache s"
    by (simp_all add: s1 load_failed_def)
  have b: "snd (loadPage json ad2 b1 b2 b3 False vo2 d2 ?s1) = []
           \<and> st_rows (fst (loadPage json ad2 b1 b2 b3 False vo2 d2 ?s1)) = cached"
    if "pageCache s (cacheKey json (with_effSortDir vo2 d2)) = Some cached"
    for ad2 b1 b2 b3 vo2 d2 cached
  proof -
    let ?t = "?s1\<lparr> st_loading := True, st_error := [], st_fetchProgress := 5 \<rparr>"
    have "pageCache ?t (cacheKey json (with_effSortDir vo2 d2)) = Some cached"
      using that a(4) by simp
    from load_body_cache_hit [OF this, of ad2 b1 b2] show ?thesis
      by (simp add: loadPage_def Let_def case_prod_beta)
  qed
  from a b error_text_not_empty show ?thesis by blast
qed

theorem page_load_failure_witness:
  "pageCache (initial_state\<lparr> pageCache := [''1-20-Company_Name-asc-{}'' \<mapsto> [[(''Company_Name'', SStr ''Acme'')]]] \<rparr>) (cacheKey (\<lambda>fs. ''{}'') (with_effSortDir [] \<lparr> page = 2, pageSize = 20, sortBy = ''Company_Name'', sortDir = ''asc'', filters = [] \<rparr>)) = None
   \<and> api_count \<lparr> api_count = (\<lambda>q. Inl (JsError None (Some ''Network Error''))), api_comp = (\<lambda>q. Inr []),
       idb_count = (\<lambda>s fs. Inr 0), idb_page = (\<lambda>s q. Inr \<lparr> rows = [], totalCount = 0 \<rparr>) \<rparr>
       (comp_params (with_effSortDir [] \<lparr> page = 2, pageSize = 20, sortBy = ''Company_Name'', sortDir = ''asc'', filters = [] \<rparr>)) = Inl (JsError None (Some ''Network Error''))
   \<and> st_rows (fst (loadPage (\<lambda>fs. ''{}'')
        \<lparr> api_count = (\<lambda>q. Inl (JsError None (Some ''Network Error''))), api_comp = (\<lambda>q. Inr []),
       idb_count = (\<lambda>s fs. Inr 0), idb_page = (\<lambda>s q. Inr \<lparr> rows = [], totalCount = 0 \<rparr>) \<rparr>
        False False False False [] \<lparr> page = 2, pageSize = 20, sortBy = ''Company_Name'', sortDir = ''asc'', filters = [] \<rparr>
        (initial_state\<lparr> pageCache := [''1-20-Company_Name-asc-{}'' \<mapsto> [[(''Company_Name'', SStr ''Acme'')]]] \<rparr>))) = []
   \<and> st_totalCount (fst (loadPage (\<lambda>fs. ''{}'')
        \<lparr> api_count = (\<lambda>q. Inl (JsError None (Some ''Network Error''))), api_comp = (\<lambda>q. Inr []),
       idb_count = (\<lambda>s fs. Inr 0), idb_page = (\<lambda>s q. Inr \<lparr> rows = [], totalCount = 0 \<rparr>) \<rparr>
        False False False False [] \<lparr> page = 2, pageSize = 20, sortBy = ''Company_Name'', sortDir = ''asc'', filters = [] \<rparr>
        (initial_state\<lparr> pageCache := [''1-20-Company_Name-asc-{}'' \<mapsto> [[(''Company_Name'', SStr ''Acme'')]]] \<rparr>))) = 0
   \<and> st_error (fst (loadPage (\<lambda>fs. ''{}'')
        \<lparr> api_count = (\<lambda>q. Inl (JsError None (Some ''Network Error''))), api_comp = (\<lambda>q. Inr []),
       idb_count = (\<lambda>s fs. Inr 0), idb_page = (\<lambda>s q. Inr \<lparr> rows = [], totalCount = 0 \<rparr>) \<rparr>
        False False False False [] \<lparr> page = 2, pageSize = 20, sortBy = ''Company_Name'', sortDir = ''asc'', filters = [] \<rparr>
        (initial_state\<lparr> pageCache := [''1-20-Company_Name-asc-{}'' \<mapsto> [[(''Company_Name'', SStr ''Acme'')]]] \<rparr>))) = ''Network Error''
   \<and> pageCache (fst (loadPage (\<lambda>fs. ''{}'')
        \<lparr> api_count = (\<lambda>q. Inl (JsError None (Some ''Network Error''))), api_comp = (\<lambda>q. Inr []),
       idb_count = (\<lambda>s fs. Inr 0), idb_page = (\<lambda>s q. Inr \<lparr> rows = [], totalCount = 0 \<rparr>) \<rparr>
        False False False False [] \<lparr> page = 2, pageSize = 20, sortBy = ''Company_Name'', sortDir = ''asc'', filters = [] \<rparr>
        (initial_state\<lparr> pageCache := [''1-20-Company_Name-asc-{}'' \<mapsto> [[(''Company_Name'', SStr ''Acme'')]]] \<rparr>))) = pageCache (initial_state\<lparr> pageCache := [''1-20-Company_Name-asc-{}'' \<mapsto> [[(''Company_Name'', SStr ''Acme'')]]] \<rparr>)
   \<and> pageCache (initial_state\<lparr> pageCache := [''1-20-Company_Name-asc-{}'' \<mapsto> [[(''Company_Name'', SStr ''Acme'')]]] \<rparr>) (cacheKey (\<lambda>fs. ''{}'') (with_effSortDir [] \<lparr> page = 1, pageSize = 20, sortBy = ''Company_Name'', sortDir = ''asc'', filters = [] \<rparr>)) = Some [[(''Company_Name'', SStr ''Acme'')]]
   \<and> snd (loadPage (\<lambda>fs. ''{}'')
        \<lparr> api_count = (\<lambda>q. Inl (JsError None (Some ''Network Error''))), api_comp = (\<lambda>q. Inr []),
       idb_count = (\<lambda>s fs. Inr 0), idb_page = (\<lambda>s q. Inr \<lparr> rows = [], totalCount = 0 \<rparr>) \<rparr>
        False False False False [] \<lparr> page = 1, pageSize = 20, sortBy = ''Company_Name'', sortDir = ''asc'', filters = [] \<rparr>
        (fst (loadPage (\<lambda>fs. ''{}'')
        \<lparr> api_count = (\<lambda>q. Inl (JsError None (Some ''Network Error''))), api_comp = (\<lambda>q. Inr []),
       idb_count = (\<lambda>s fs. Inr 0), idb_page = (\<lambda>s q. Inr \<lparr> rows = [], totalCount = 0 \<rparr>) \<rparr>
        False False False False [] \<lparr> page = 2, pageSize = 20, sortBy = ''Company_Name'', sortDir = ''asc'', filters = [] \<rparr>
        (initial_state\<lparr> pageCache := [''1-20-Company_Name-asc-{}'' \<mapsto> [[(''Company_Name'', SStr ''Acme'')]]] \<rparr>)))) = []
   \<and> st_rows (fst (loadPage (\<lambda>fs. ''{}'')
        \<lparr> api_count = (\<lambda>q. Inl (JsError None (Some ''Network Error''))), api_comp = (\<lambda>q. Inr []),
       idb_count = (\<lambda>s fs. Inr 0), idb_page = (\<lambda>s q. Inr \<lparr> rows = [], totalCount = 0 \<rparr>) \<rparr>
        False False False False [] \<lparr> page = 1, pageSize = 20, sortBy = ''Company_Name'', sortDir = ''asc'', filters = [] \<rparr>
        (fst (loadPage (\<lambda>fs. ''{}'')
        \<lparr> api_count = (\<lambda>q. Inl (JsError None (Some ''Network Error''))), api_comp = (\<lambda>q. Inr []),
       idb_count = (\<lambda>s fs. Inr 0), idb_page = (\<lambda>s q. Inr \<lparr> rows = [], totalCount = 0 \<rparr>) \<rparr>
        False False False False [] \<lparr> page = 2, pageSize = 20, sortBy = ''Company_Name'', sortDir = ''asc'', filters = [] \<rparr>
        (initial_state\<lparr> pageCache := [''1-20-Company_Name-asc-{}'' \<mapsto> [[(''Company_Name'', SStr ''Acme'')]]] \<rparr>))))) = [[(''Company_Name'', SStr ''Acme'')]]"
proof -
  let ?ad = "\<lparr> api_count = (\<lambda>q. Inl (JsError None (Some ''Network Error''))), api_comp = (\<lambda>q. Inr []),
       idb_count = (\<lambda>s fs. Inr 0), idb_page = (\<lambda>s q. Inr \<lparr> rows = [], totalCount = 0 \<rparr>) \<rparr>"
  let ?s = "(initial_state\<lparr> pageCache := [''1-20-Company_Name-asc-{}'' \<mapsto> [[(''Company_Name'', SStr ''Acme'')]]] \<rparr>)"
  let ?json = "(\<lambda>fs. ''{}'')"
  let ?d1 = "\<lparr> page = 1, pageSize = 20, sortBy = ''Company_Name'', sortDir = ''asc'', filters = [] \<rparr>"
  let ?d2 = "\<lparr> page = 2, pageSize = 20, sortBy = ''Company_Name'', sortDir = ''asc'', filters = [] \<rparr>"
  let ?e = "(JsError None (Some ''Network Error''))"
  have k1: "cacheKey ?json (with_effSortDir [] ?d1) = ''1-20-Company_Name-asc-{}''"
    by (simp add: cacheKey_def with_effSortDir_def effSortDir_def show_int_def show_nat.simps digit_char_def)
  have k2: "cacheKey ?json (with_effSortDir [] ?d2) = ''2-20-Company_Name-asc-{}''"
    by (simp add: cacheKey_def with_effSortDir_def effSortDir_def show_int_def show_nat.simps digit_char_def)
  have h1: "False \<or> pageCache ?s (cacheKey ?json (with_effSortDir [] ?d2)) = None"
    by (simp add: k2 initial_state_def)
  have h1': "pageCache ?s (cacheKey ?json (with_effSortDir [] ?d2)) = None"
    by (simp add: k2 initial_state_def)
  have h2': "api_count ?ad (comp_params (with_effSortDir [] ?d2)) = Inl ?e"
    by simp
  have h3: "pageCache ?s (cacheKey ?json (with_effSortDir [] ?d1)) = Some [[(''Company_Name'', SStr ''Acme'')]]"
    by (simp add: k1 initial_state_def)
  note T = page_load_failure [where offline = False and s = ?s and json = ?json and ad = ?ad
      and valuationOrder = "[]" and d = ?d2 and e = ?e and ?c1.0 = False and ?c2.0 = False and ?c3.0 = False]
  have c: "st_rows (fst (loadPage ?json ?ad False False False False [] ?d2 ?s)) = []
         \<and> st_totalCount (fst (loadPage ?json ?ad False False False False [] ?d2 ?s)) = 0
         \<and> st_error (fst (loadPage ?json ?ad False False False False [] ?d2 ?s)) = error_text ?e
         \<and> pageCache (fst (loadPage ?json ?ad False False False False [] ?d2 ?s)) = pageCache ?s
         \<and> (\<forall>ad2 b1 b2 b3 vo2 d2 cached.
               pageCache ?s (cacheKey ?json (with_effSortDir vo2 d2)) = Some cached \<longrightarrow>
               snd (loadPage ?json ad2 b1 b2 b3 False vo2 d2
                      (fst (loadPage ?json ?ad False False False False [] ?d2 ?s))) = []
               \<and> st_rows (fst (loadPage ?json ad2 b1 b2 b3 False vo2 d2
                      (fst (loadPage ?json ?ad False False False False [] ?d2 ?s)))) = cached)"
    using T h1' h2' by simp
  have et: "error_text ?e = ''Network Error''"
    by (simp add: error_text_def)
  from c h3 have d: "snd (loadPage ?json ?ad False False False False [] ?d1
                      (fst (loadPage ?json ?ad False False False False [] ?d2 ?s))) = []
               \<and> st_rows (fst (loadPage ?json ?ad False False False False [] ?d1
                      (fst (loadPage ?json ?ad False False False False [] ?d2 ?s)))) = [[(''Company_Name'', SStr ''Acme'')]]"
    by blast
  from h1' h2' c et h3 d show ?thesis
    by simp
qed

subsection \<open>Download Excel\<close>

lemma new_Set_BASE_COLS: "new_Set BASE_COLS = BASE_COLS"
  by (simp add: new_Set_def BASE_COLS_def set_add_def)

lemma new_Set_twice: "new_Set (BASE_COLS @ BASE_COLS) = BASE_COLS"
  by (simp add: new_Set_def BASE_COLS_def set_add_def)

lemma synced_record_has_rowKey: "upsertRows [[(''Folio_Dpid'', SStr ''F1''), (''Company_Name'', SStr ''Acme'')]] []
  = [(SStr ''F1'', [(''Folio_Dpid'', SStr ''F1''), (''Company_Name'', SStr ''Acme''), (''rowKey'', SStr ''F1'')])]"
  by (simp add: upsertRows_def makeKey_def getProp_def)

text \<open>
  Claim C9 says that in both modes the columns of the export are the known columns
  followed by every other key seen in a fetched record. The code in offline mode, on a
  device holding one synced record: the record has the extra key \<open>rowKey\<close>, which
  \<open>upsertRows\<close> gives to every stored record, and the header row is \<open>BASE_COLS\<close>
  alone, because only the server branch adds the keys of a batch to \<open>headersSeen\<close>.
\<close>

theorem offline_export_drops_extra_columns:
  "handleDownloadExcel (live eng table lc) True []
     \<lparr> page = 1, pageSize = 20, sortBy = ''Company_Name'', sortDir = ''asc'', filters = [] \<rparr>
     (initial_state\<lparr> device :=
        [(SStr ''F1'', [(''Folio_Dpid'', SStr ''F1''), (''Company_Name'', SStr ''Acme''),
                        (''rowKey'', SStr ''F1'')])] \<rparr>)
   = Some (initial_state\<lparr> device :=
             [(SStr ''F1'', [(''Folio_Dpid'', SStr ''F1''), (''Company_Name'', SStr ''Acme''),
                             (''rowKey'', SStr ''F1'')])],
             st_syncMsg := Export_done, st_syncProgress := 100 \<rparr>,
           Some \<lparr> headers = BASE_COLS,
                  body = [map (\<lambda>h. (h, if h = ''Folio_Dpid'' then SStr ''F1''
                                          else if h = ''Company_Name'' then SStr ''Acme''
                                          else SStr [])) BASE_COLS] \<rparr>)
   \<and> ''rowKey'' \<notin> set BASE_COLS"
proof -
  let ?d = "\<lparr> page = 1, pageSize = 20, sortBy = ''Company_Name'', sortDir = ''asc'', filters = [] \<rparr>"
  let ?r = "[(''Folio_Dpid'', SStr ''F1''), (''Company_Name'', SStr ''Acme''), (''rowKey'', SStr ''F1'')]"
  let ?dev = "[(SStr ''F1'', ?r)]"
  have pg: "getPageFromIDB lc ?dev ((with_effSortDir [] ?d)\<lparr> page := 1, pageSize := 2000 \<rparr>)
              = \<lparr> rows = [?r], totalCount = 1 \<rparr>"
    by (simp add: getPageFromIDB_def Let_def slice_js_def chunk_def with_effSortDir_def)
  have loop: "exportOfflineLoop (idb_page (live eng table lc) ?dev) (with_effSortDir [] ?d) 1 0 1 [] = Inr [?r]"
    by (subst exportOfflineLoop.simps) (simp add: live_def pg chunk_def)
  have cnt: "idb_count (live eng table lc) ?dev (filters (with_effSortDir [] ?d)) = Inr 1"
    by (simp add: live_def getCountFromIDB_def with_effSortDir_def)
  have sh: "make_sheet [?r] (new_Set BASE_COLS) =
              \<lparr> headers = BASE_COLS,
                body = [map (\<lambda>h. (h, if h = ''Folio_Dpid'' then SStr ''F1''
                                      else if h = ''Company_Name'' then SStr ''Acme''
                                      else SStr [])) BASE_COLS] \<rparr>"
    by (simp add: make_sheet_def Let_def new_Set_BASE_COLS new_Set_twice)
       (simp add: BASE_COLS_def getProp_def nullish_or_def)
  have "''rowKey'' \<notin> set BASE_COLS" by (simp add: BASE_COLS_def)
  then show ?thesis
    by (simp add: handleDownloadExcel_def Let_def cnt loop [simplified] sh initial_state_def)
qed


text \<open>
  The rest of what the claim says holds: an export leaves the object store and the page
  cache as they were, and the server branch lists the extra keys after the known columns.
\<close>

lemma export_keeps_store_and_cache:
  "handleDownloadExcel ad offline valuationOrder d s = Some (s', sh)
   \<Longrightarrow> device s' = device s \<and> pageCache s' = pageCache s"
  by (auto simp: handleDownloadExcel_def Let_def split: sum.splits option.splits if_splits prod.splits)

lemma server_export_keeps_extra_columns:
  "map_option (map_option headers \<circ> snd)
     (handleDownloadExcel (live eng [[(''id'', SNum 7), (''Company_Name'', SStr ''Acme'')]] lc) False []
        \<lparr> page = 1, pageSize = 20, sortBy = ''Company_Name'', sortDir = ''asc'', filters = [] \<rparr>
        initial_state)
   = Some (Some (BASE_COLS @ [''id'']))"
proof -
  let ?d = "with_effSortDir [] \<lparr> page = 1, pageSize = 20, sortBy = ''Company_Name'', sortDir = ''asc'', filters = [] \<rparr>"
  let ?r = "[(''id'', SNum 7), (''Company_Name'', SStr ''Acme'')]"
  let ?dp = "?d\<lparr> page := 1, pageSize := 2000 \<rparr>"
  have f: "fst ` set (filters ?dp) \<subseteq> set COLS" by (simp add: with_effSortDir_def)
  have bw: "buildWhere (comp_params ?dp) = ([], [])"
    by (subst buildWhere_comp_params) (simp add: with_effSortDir_def buildWhere_def COLS_def)
  have g: "comp_get eng [?r] (comp_params ?dp) = Inr [?r]"
    using comp_get_page [OF comp_params_paging(2) [OF f] _ _ comp_params_paging(1) [OF f], of eng "[?r]"]
    by (simp add: bw where_holds_def)
  have seen: "see_headers [?r] BASE_COLS = BASE_COLS @ [''id'']"
    by (simp add: see_headers_def set_add_def BASE_COLS_def)
  have loop: "exportRemoteLoop (comp_get eng [?r]) ?d 1 [] (new_Set BASE_COLS)
                = Some (Inr ([?r], BASE_COLS @ [''id'']))"
    by (subst exportRemoteLoop.simps) (simp add: g chunk_def new_Set_BASE_COLS seen)
  have hs: "new_Set (BASE_COLS @ BASE_COLS @ [''id'']) = BASE_COLS @ [''id'']"
    by (simp add: new_Set_def BASE_COLS_def set_add_def)
  show ?thesis
    by (simp add: handleDownloadExcel_def Let_def live_def comp_count_def loop [simplified]
        make_sheet_def hs)
qed

end
